theory Spec2Isabelle
  imports Main
begin

section \<open>Common conventions\<close>

text \<open>
  The sources embedded here are \<^verbatim>\<open>rr_graph_tileable_builder.c\<close> (the tileable
  routing-resource-graph builder) and the multiplexer bitstream builder
  (\<^verbatim>\<open>find_mux_default_path_id\<close>, \<^verbatim>\<open>build_cmos_mux_bitstream\<close>).

  Every way the C++ code can stop without a value is a constructor of \<open>error\<close>;
  a function that can stop so returns \<open>error + 'a\<close> (\<open>Inl\<close> the error).
  A loop that may run forever is a \<^theory_text>\<open>partial_function\<close> into \<open>option\<close>,
  where \<open>None\<close> means that the loop never exits.

  \<^verbatim>\<open>size_t\<close> values are natural numbers. Sums and products of \<^verbatim>\<open>size_t\<close>
  values are taken without the reduction modulo \<open>2 ^ 64\<close> (they stay far below it for
  any fabric that fits in memory); every \<^verbatim>\<open>size_t\<close> subtraction of the source is
  written with \<open>size_t_sub\<close>, which wraps around as the C++ subtraction does.
\<close>

datatype error =
    Out_of_range          \<comment> \<open>an index outside a vector or array\<close>
  | Assertion_failed      \<comment> \<open>\<^verbatim>\<open>assert\<close> / \<^verbatim>\<open>VTR_ASSERT\<close> aborts\<close>
  | Division_by_zero      \<comment> \<open>integer \<^verbatim>\<open>%\<close> by zero\<close>
  | Invalid_device_side   \<comment> \<open>\<^verbatim>\<open>exit(1)\<close>: "Invalid device_side!"\<close>
  | Io_grid_in_center     \<comment> \<open>\<^verbatim>\<open>exit(1)\<close>: "I/O Grid is in the center part of FPGA!"\<close>
  | Null_pointer          \<comment> \<open>a null type pointer is followed\<close>
  | Length_error          \<comment> \<open>\<^verbatim>\<open>resize\<close> with a negative size\<close>
  | Mux_graph_absent      \<comment> \<open>the mux library holds no graph for the query\<close>
  | Invalid_design_tech   \<comment> \<open>\<^verbatim>\<open>exit(1)\<close>: "Invalid design technology"\<close>

definition size_t_sub :: "nat \<Rightarrow> nat \<Rightarrow> nat" where
  "size_t_sub a b = (if b \<le> a then a - b else a + 2 ^ 64 - b)"

section \<open>The segment allocator: \<^verbatim>\<open>get_num_tracks_per_seg_type\<close>\<close>

text \<open>
  \<^verbatim>\<open>t_segment_inf\<close>: only the fields the builder reads. The C fields \<^verbatim>\<open>length\<close> and
  \<^verbatim>\<open>frequency\<close> are non-negative integers of the architecture description.
\<close>

record t_segment_inf =
  length_s :: nat
  frequency :: nat
  longline :: bool

text \<open>
  The local variables of the function that the \<^verbatim>\<open>while\<close> loop changes.
  \<^verbatim>\<open>demand\<close> is a vector of \<^verbatim>\<open>double\<close> in the source; all the values stored in
  it are integers (\<open>scale\<close> is a multiple of every length, so the division by a
  length is exact), and they are kept as integers here.
\<close>

record alloc_state =
  demand :: "int list"
  result :: "nat list"
  assigned :: nat
  size_v :: nat
  imax :: nat

text \<open>
  The scan for the current maximum demand (the inner \<^verbatim>\<open>for\<close> loop): \<open>mx\<close> starts
  at 0, \<open>imax\<close> keeps its value from the previous round of the \<^verbatim>\<open>while\<close> loop
  unless some demand exceeds the running maximum.
\<close>

fun find_max_demand :: "int list \<Rightarrow> nat \<Rightarrow> int \<Rightarrow> nat \<Rightarrow> nat" where
  "find_max_demand [] iseg mx im = im"
| "find_max_demand (d # ds) iseg mx im =
     find_max_demand ds (Suc iseg) (max d mx) (if d > mx then iseg else im)"

text \<open>
  The \<^verbatim>\<open>while (assigned < chan_width)\<close> loop. The three vectors
  \<^verbatim>\<open>segment_inf\<close>, \<^verbatim>\<open>demand\<close> and \<^verbatim>\<open>result\<close> have the same size, so one
  bound check on \<open>imax\<close> stands for the three indexings of the loop body.
\<close>

partial_function (option) assign_tracks ::
  "nat \<Rightarrow> t_segment_inf list \<Rightarrow> bool \<Rightarrow> nat \<Rightarrow> alloc_state \<Rightarrow> (error + alloc_state) option"
where
  "assign_tracks chan_width segment_inf use_full_seg_groups reduce st =
     (if assigned st < chan_width then
        (let im = find_max_demand (demand st) 0 0 (imax st) in
         if im < length segment_inf then
           (let sz = (if use_full_seg_groups then length_s (segment_inf ! im) else 1) in
            assign_tracks chan_width segment_inf use_full_seg_groups reduce
              \<lparr>demand = (demand st)[im := demand st ! im - int reduce],
               result = (result st)[im := result st ! im + sz],
               assigned = assigned st + sz,
               size_v = sz,
               imax = im\<rparr>)
         else Some (Inl Out_of_range))
      else Some (Inr st))"

declare assign_tracks.simps [code]

text \<open>The state before the loop: zeroed results, the demand of every type.\<close>

definition init_alloc :: "nat \<Rightarrow> t_segment_inf list \<Rightarrow> bool \<Rightarrow> alloc_state" where
  "init_alloc chan_width segment_inf use_full_seg_groups =
     (let scale = prod_list (map length_s segment_inf) in
      \<lparr>demand = map (\<lambda>s. let d = int (scale * chan_width * frequency s)
                          in if use_full_seg_groups then d div int (length_s s) else d)
                  segment_inf,
       result = map (\<lambda>s. 0) segment_inf,
       assigned = 0,
       size_v = 0,
       imax = 0\<rparr>)"

definition reduce_of :: "t_segment_inf list \<Rightarrow> nat" where
  "reduce_of segment_inf =
     prod_list (map length_s segment_inf) * sum_list (map frequency segment_inf)"

text \<open>The undo step after the loop.\<close>

definition undo_last :: "nat \<Rightarrow> alloc_state \<Rightarrow> error + nat list" where
  "undo_last chan_width st =
     (if size_t_sub (assigned st) chan_width > size_v st div 2 then
        (if imax st < length (result st)
         then Inr ((result st)[imax st := size_t_sub (result st ! imax st) (size_v st)])
         else Inl Out_of_range)
      else Inr (result st))"

definition get_num_tracks_per_seg_type ::
  "nat \<Rightarrow> t_segment_inf list \<Rightarrow> bool \<Rightarrow> (error + nat list) option" where
  "get_num_tracks_per_seg_type chan_width segment_inf use_full_seg_groups =
     (case assign_tracks chan_width segment_inf use_full_seg_groups (reduce_of segment_inf)
             (init_alloc chan_width segment_inf use_full_seg_groups) of
        None \<Rightarrow> None
      | Some (Inl e) \<Rightarrow> Some (Inl e)
      | Some (Inr st) \<Rightarrow> Some (undo_last chan_width st))"

text \<open>The size of one assignment to segment type \<open>s\<close>.\<close>

definition group_size :: "bool \<Rightarrow> t_segment_inf \<Rightarrow> nat" where
  "group_size use_full_seg_groups s = (if use_full_seg_groups then length_s s else 1)"

section \<open>The channel builder: \<^verbatim>\<open>build_unidir_chan_node_details\<close>\<close>

text \<open>
  A \<^verbatim>\<open>for\<close> loop over the indices \<open>is\<close> whose body may abort: the loop stops at
  the first abort.
\<close>

fun for_loop :: "('i \<Rightarrow> 's \<Rightarrow> error + 's) \<Rightarrow> 'i list \<Rightarrow> 's \<Rightarrow> error + 's" where
  "for_loop body [] s = Inr s"
| "for_loop body (i # is) s =
     (case body i s of Inl e \<Rightarrow> Inl e | Inr s' \<Rightarrow> for_loop body is s')"

datatype e_direction = INC_DIRECTION | DEC_DIRECTION

text \<open>
  \<^verbatim>\<open>enum e_side\<close>; \<open>OTHER_SIDE\<close> stands for any value outside the enumeration
  (the \<^verbatim>\<open>default\<close> branch of the \<^verbatim>\<open>switch\<close>).
\<close>

datatype e_side = TOP | RIGHT | BOTTOM | LEFT | NUM_SIDES | OTHER_SIDE

text \<open>
  Modelled from the spec: the class \<^verbatim>\<open>ChanNodeDetails\<close> (chan_node_details.h) is
  not among the sources. A channel is the ordered sequence of its tracks, each with
  index, direction, effective length, start flag and end flag; \<^verbatim>\<open>add_track\<close>
  appends one track; a border override forces the tracks of one direction to
  start-only (\<^verbatim>\<open>set_tracks_start\<close>) or end-only (\<^verbatim>\<open>set_tracks_end\<close>); a node is
  created only for the tracks flagged start (\<^verbatim>\<open>get_num_starting_tracks\<close>).
\<close>

record track =
  track_node_id :: nat
  track_direction :: e_direction
  seg_length :: nat
  track_start :: bool
  track_end :: bool

type_synonym ChanNodeDetails = "track list"

definition add_track ::
  "ChanNodeDetails \<Rightarrow> nat \<Rightarrow> e_direction \<Rightarrow> nat \<Rightarrow> bool \<Rightarrow> bool \<Rightarrow> ChanNodeDetails" where
  "add_track details node_id dir len is_start is_end =
     details @ [\<lparr>track_node_id = node_id, track_direction = dir, seg_length = len,
                 track_start = is_start, track_end = is_end\<rparr>]"

definition set_tracks_start :: "e_direction \<Rightarrow> ChanNodeDetails \<Rightarrow> ChanNodeDetails" where
  "set_tracks_start dir details =
     map (\<lambda>t. if track_direction t = dir then t\<lparr>track_start := True, track_end := False\<rparr> else t)
       details"

definition set_tracks_end :: "e_direction \<Rightarrow> ChanNodeDetails \<Rightarrow> ChanNodeDetails" where
  "set_tracks_end dir details =
     map (\<lambda>t. if track_direction t = dir then t\<lparr>track_start := False, track_end := True\<rparr> else t)
       details"

definition get_num_starting_tracks :: "ChanNodeDetails \<Rightarrow> nat" where
  "get_num_starting_tracks details = length (filter track_start details)"

text \<open>
  The body of the loop over \<open>itrack\<close>: the state is \<open>(cur_track, chan_node_details)\<close>.
  \<^verbatim>\<open>itrack % seg_len\<close> with \<open>seg_len = 0\<close> is a division by zero.
\<close>

definition add_track_pair ::
  "nat \<Rightarrow> nat \<Rightarrow> nat \<times> ChanNodeDetails \<Rightarrow> error + nat \<times> ChanNodeDetails" where
  "add_track_pair seg_len itrack s =
     (if seg_len = 0 then Inl Division_by_zero
      else
        (let seg_start = (itrack mod seg_len = 0);
             cur_track = fst s;
             d1 = add_track (snd s) cur_track INC_DIRECTION seg_len seg_start False;
             d2 = add_track d1 (cur_track + 1) DEC_DIRECTION seg_len seg_start False
         in Inr (cur_track + 2, d2)))"

text \<open>The segment length of a type: the maximum segment length for a longline.\<close>

definition effective_length :: "nat \<Rightarrow> t_segment_inf \<Rightarrow> nat" where
  "effective_length max_seg_length s = (if longline s then max_seg_length else length_s s)"

text \<open>The body of the loop over \<open>iseg\<close>, and the whole loop nest (lines 213 to 234).\<close>

definition add_seg_type_tracks ::
  "nat \<Rightarrow> t_segment_inf list \<Rightarrow> nat list \<Rightarrow> nat \<Rightarrow> nat \<times> ChanNodeDetails
     \<Rightarrow> error + nat \<times> ChanNodeDetails" where
  "add_seg_type_tracks max_seg_length segment_inf num_tracks iseg s =
     (if iseg < length num_tracks then
        for_loop (add_track_pair (effective_length max_seg_length (segment_inf ! iseg)))
          [0..<num_tracks ! iseg] s
      else Inl Out_of_range)"

definition add_all_tracks ::
  "nat \<Rightarrow> t_segment_inf list \<Rightarrow> nat list \<Rightarrow> error + nat \<times> ChanNodeDetails" where
  "add_all_tracks max_seg_length segment_inf num_tracks =
     for_loop (add_seg_type_tracks max_seg_length segment_inf num_tracks)
       [0..<length segment_inf] (0, [])"

text \<open>The channel width after the correction to an even number (lines 197 to 199).\<close>

definition even_width :: "nat \<Rightarrow> nat" where
  "even_width chan_width = (if chan_width mod 2 \<noteq> 0 then chan_width + 1 else chan_width)"

text \<open>The \<^verbatim>\<open>switch (device_side)\<close> at the end of the builder.\<close>

definition apply_device_side :: "e_side \<Rightarrow> ChanNodeDetails \<Rightarrow> error + ChanNodeDetails" where
  "apply_device_side device_side details =
     (case device_side of
        TOP \<Rightarrow> Inr (set_tracks_start DEC_DIRECTION (set_tracks_end INC_DIRECTION details))
      | RIGHT \<Rightarrow> Inr (set_tracks_start DEC_DIRECTION (set_tracks_end INC_DIRECTION details))
      | BOTTOM \<Rightarrow> Inr (set_tracks_end DEC_DIRECTION (set_tracks_start INC_DIRECTION details))
      | LEFT \<Rightarrow> Inr (set_tracks_end DEC_DIRECTION (set_tracks_start INC_DIRECTION details))
      | NUM_SIDES \<Rightarrow> Inr details
      | OTHER_SIDE \<Rightarrow> Inl Invalid_device_side)"

definition build_unidir_chan_node_details ::
  "nat \<Rightarrow> nat \<Rightarrow> e_side \<Rightarrow> t_segment_inf list \<Rightarrow> (error + ChanNodeDetails) option" where
  "build_unidir_chan_node_details chan_width0 max_seg_length device_side segment_inf =
     (let chan_width = (if chan_width0 mod 2 \<noteq> 0 then chan_width0 + 1 else chan_width0) in
      if chan_width mod 2 \<noteq> 0 then Some (Inl Assertion_failed)
      else if chan_width = 0 then Some (Inr [])
      else
        (case get_num_tracks_per_seg_type (chan_width div 2) segment_inf True of
           None \<Rightarrow> None
         | Some (Inl e) \<Rightarrow> Some (Inl e)
         | Some (Inr num_tracks) \<Rightarrow>
             (case add_all_tracks max_seg_length segment_inf num_tracks of
                Inl e \<Rightarrow> Some (Inl e)
              | Inr s \<Rightarrow>
                  if fst s = chan_width then Some (apply_device_side device_side (snd s))
                  else Some (Inl Assertion_failed))))"

section \<open>The node census: \<^verbatim>\<open>estimate_num_rr_nodes_per_type\<close>\<close>

text \<open>
  \<^verbatim>\<open>DeviceCoordinator\<close> (device_coordinator.h, not among the sources): a pair of
  \<^verbatim>\<open>size_t\<close> coordinates read with \<^verbatim>\<open>get_x()\<close> and \<^verbatim>\<open>get_y()\<close>.
\<close>

record DeviceCoordinator =
  get_x :: nat
  get_y :: nat

text \<open>
  \<^verbatim>\<open>t_type_ptr\<close> points to a type descriptor; \<open>None\<close> is the null pointer.
  \<open>type_id\<close> says which descriptor an address is: the comparisons
  \<^verbatim>\<open>EMPTY_TYPE == p\<close> and \<^verbatim>\<open>IO_TYPE == p\<close> of the source compare addresses with
  the two global descriptors. Of the descriptor, only the fields the census reads
  are kept; \<^verbatim>\<open>pinloc[height][side][pin]\<close> and \<^verbatim>\<open>pin_class[pin]\<close> are arrays
  sized by the descriptor itself, and are read within their sizes only.
\<close>

datatype t_type_id = EMPTY_TYPE | IO_TYPE | BLOCK_TYPE nat

datatype e_pin_type = OPEN | DRIVER | RECEIVER

record s_type_descriptor =
  type_id :: t_type_id
  num_pins :: int
  height :: int
  pinloc :: "nat \<Rightarrow> e_side \<Rightarrow> nat \<Rightarrow> int"
  pin_class :: "nat \<Rightarrow> e_pin_type"

record t_grid_tile =
  type :: "s_type_descriptor option"
  offset :: int

definition points_to :: "t_type_id \<Rightarrow> s_type_descriptor option \<Rightarrow> bool" where
  "points_to k p = (case p of None \<Rightarrow> False | Some t \<Rightarrow> type_id t = k)"

definition determine_io_grid_pin_side ::
  "DeviceCoordinator \<Rightarrow> DeviceCoordinator \<Rightarrow> error + e_side" where
  "determine_io_grid_pin_side device_size grid_coordinator =
     (if get_y device_size = get_y grid_coordinator then Inr BOTTOM
      else if get_x device_size = get_x grid_coordinator then Inr LEFT
      else if 0 = get_y grid_coordinator then Inr TOP
      else if 0 = get_x grid_coordinator then Inr RIGHT
      else Inl Io_grid_in_center)"

definition get_grid_side_pins ::
  "t_grid_tile \<Rightarrow> e_pin_type \<Rightarrow> e_side \<Rightarrow> nat \<Rightarrow> error + nat list" where
  "get_grid_side_pins cur_grid pin_type pin_side pin_height =
     (case type cur_grid of
        None \<Rightarrow> Inl Null_pointer
      | Some t \<Rightarrow>
          Inr (filter (\<lambda>ipin. pinloc t pin_height pin_side ipin = 1 \<and> pin_class t ipin = pin_type)
                 [0..<nat (num_pins t)]))"

text \<open>
  \<^verbatim>\<open>get_grid_num_pins\<close>: the loop over the four sides (\<^verbatim>\<open>Side(0)\<close> to \<^verbatim>\<open>Side(3)\<close>
  are \<open>TOP\<close>, \<open>RIGHT\<close>, \<open>BOTTOM\<close>, \<open>LEFT\<close>) and, inside, over the heights.
\<close>

definition get_grid_num_pins :: "t_grid_tile \<Rightarrow> e_pin_type \<Rightarrow> e_side \<Rightarrow> error + nat" where
  "get_grid_num_pins cur_grid pin_type io_side =
     for_loop
       (\<lambda>side num_pins_acc.
          if points_to IO_TYPE (type cur_grid) \<and> side \<noteq> io_side then Inr num_pins_acc
          else
            (case type cur_grid of
               None \<Rightarrow> Inl Null_pointer
             | Some t \<Rightarrow>
                 for_loop
                   (\<lambda>h acc. case get_grid_side_pins cur_grid pin_type side h of
                               Inl e \<Rightarrow> Inl e
                             | Inr pin_list \<Rightarrow> Inr (acc + length pin_list))
                   [0..<nat (height t)] num_pins_acc))
       [TOP, RIGHT, BOTTOM, LEFT] 0"

text \<open>
  The body of the loop over the grid cells (part 1 of the census); the state is the
  pair of the OPIN and IPIN counts. The test for an IO tile (line 371) reads the
  global array \<^verbatim>\<open>grid\<close>, not the parameter \<^verbatim>\<open>grids\<close>; the side is asked with
  \<^verbatim>\<open>device_size\<close> (the local \<^verbatim>\<open>io_device_size\<close>, one less in each coordinate, is
  built and never used).
\<close>

definition count_cell_pins ::
  "DeviceCoordinator \<Rightarrow> t_grid_tile list list \<Rightarrow> t_grid_tile list list \<Rightarrow> nat \<times> nat
     \<Rightarrow> nat \<times> nat \<Rightarrow> error + nat \<times> nat" where
  "count_cell_pins device_size grid grids cell acc =
     (let ix = fst cell; iy = snd cell; cur = grids ! ix ! iy in
      if points_to EMPTY_TYPE (type cur) then Inr acc
      else if 0 < offset cur then Inr acc
      else if \<not> (ix < length grid \<and> iy < length (grid ! ix)) then Inl Out_of_range
      else
        (case (if points_to IO_TYPE (type (grid ! ix ! iy))
               then determine_io_grid_pin_side device_size \<lparr>get_x = ix, get_y = iy\<rparr>
               else Inr NUM_SIDES) of
           Inl e \<Rightarrow> Inl e
         | Inr io_side \<Rightarrow>
             (case get_grid_num_pins cur DRIVER io_side of
                Inl e \<Rightarrow> Inl e
              | Inr n_opin \<Rightarrow>
                  (case get_grid_num_pins cur RECEIVER io_side of
                     Inl e \<Rightarrow> Inl e
                   | Inr n_ipin \<Rightarrow> Inr (fst acc + n_opin, snd acc + n_ipin)))))"

definition grid_cells :: "'a list list \<Rightarrow> (nat \<times> nat) list" where
  "grid_cells grids =
     concat (map (\<lambda>ix. map (\<lambda>iy. (ix, iy)) [0..<length (grids ! ix)]) [0..<length grids])"

definition count_grid_pins ::
  "DeviceCoordinator \<Rightarrow> t_grid_tile list list \<Rightarrow> t_grid_tile list list \<Rightarrow> error + nat \<times> nat"
  where
  "count_grid_pins device_size grid grids =
     for_loop (count_cell_pins device_size grid grids) (grid_cells grids) (0, 0)"

text \<open>
  The counting loops of part 2: \<open>n\<close> rounds that each add the start-track count of a
  representative channel, and the loop nest over the core of the grid.
\<close>

definition add_per_position :: "nat \<Rightarrow> nat \<Rightarrow> nat \<Rightarrow> error + nat" where
  "add_per_position starts n acc = for_loop (\<lambda>i a. Inr (a + starts)) [0..<n] acc"

definition add_per_core_position :: "nat \<Rightarrow> 'a list list \<Rightarrow> nat \<Rightarrow> error + nat" where
  "add_per_core_position starts grids acc =
     for_loop
       (\<lambda>ix a. if ix < length grids
                then for_loop (\<lambda>iy b. Inr (b + starts))
                       [1..<size_t_sub (length (grids ! ix)) 2] a
                else Inl Out_of_range)
       [1..<size_t_sub (length grids) 2] acc"

text \<open>Sequencing of steps that may abort (\<open>Inl\<close>) or never return (\<open>None\<close>).\<close>

definition bind_r ::
  "(error + 'a) option \<Rightarrow> ('a \<Rightarrow> (error + 'b) option) \<Rightarrow> (error + 'b) option" where
  "bind_r m f = (case m of None \<Rightarrow> None | Some (Inl e) \<Rightarrow> Some (Inl e) | Some (Inr a) \<Rightarrow> f a)"

text \<open>
  The CHANX total (lines 401 to 418) and the CHANY total (lines 420 to 437), in the
  order of the source: the left and the right channel are built from
  \<^verbatim>\<open>chan_width[0]\<close>, the core channel of the X direction and the three channels of
  the Y direction from \<^verbatim>\<open>chan_width[1]\<close>.
\<close>

definition count_chanx ::
  "DeviceCoordinator \<Rightarrow> 'a list list \<Rightarrow> nat list \<Rightarrow> t_segment_inf list \<Rightarrow> (error + nat) option"
  where
  "count_chanx device_size grids chan_width segment_infs =
     (if length chan_width < 2 then Some (Inl Out_of_range)
      else
        bind_r (build_unidir_chan_node_details (chan_width ! 0)
                  (size_t_sub (get_x device_size) 2) LEFT segment_infs) (\<lambda>left_chanx_details.
        bind_r (Some (add_per_position (get_num_starting_tracks left_chanx_details)
                  (size_t_sub (get_y device_size) 1) 0)) (\<lambda>n1.
        bind_r (build_unidir_chan_node_details (chan_width ! 0)
                  (size_t_sub (get_x device_size) 2) RIGHT segment_infs) (\<lambda>right_chanx_details.
        bind_r (Some (add_per_position (get_num_starting_tracks right_chanx_details)
                  (size_t_sub (get_y device_size) 1) n1)) (\<lambda>n2.
        bind_r (build_unidir_chan_node_details (chan_width ! 1)
                  (size_t_sub (get_x device_size) 2) NUM_SIDES segment_infs) (\<lambda>core_chanx_details.
        Some (add_per_core_position (get_num_starting_tracks core_chanx_details) grids n2)))))))"

definition count_chany ::
  "DeviceCoordinator \<Rightarrow> 'a list list \<Rightarrow> nat list \<Rightarrow> t_segment_inf list \<Rightarrow> (error + nat) option"
  where
  "count_chany device_size grids chan_width segment_infs =
     (if length chan_width < 2 then Some (Inl Out_of_range)
      else
        bind_r (build_unidir_chan_node_details (chan_width ! 1)
                  (size_t_sub (get_y device_size) 2) TOP segment_infs) (\<lambda>top_chany_details.
        bind_r (Some (add_per_position (get_num_starting_tracks top_chany_details)
                  (size_t_sub (get_x device_size) 1) 0)) (\<lambda>n1.
        bind_r (build_unidir_chan_node_details (chan_width ! 1)
                  (size_t_sub (get_y device_size) 2) BOTTOM segment_infs) (\<lambda>bottom_chany_details.
        bind_r (Some (add_per_position (get_num_starting_tracks bottom_chany_details)
                  (size_t_sub (get_x device_size) 1) n1)) (\<lambda>n2.
        bind_r (build_unidir_chan_node_details (chan_width ! 1)
                  (size_t_sub (get_y device_size) 2) NUM_SIDES segment_infs) (\<lambda>core_chany_details.
        Some (add_per_core_position (get_num_starting_tracks core_chany_details) grids n2)))))))"

text \<open>
  The indices of the node categories in the returned vector, as the source lists them:
  \<^verbatim>\<open>SOURCE = 0, SINK, IPIN, OPIN, CHANX, CHANY, INTRA_CLUSTER_EDGE, NUM_RR_TYPES\<close>.
\<close>

text \<open>
  The census. \<open>grid\<close> is the global tile array that line 371 reads; the other
  arguments are the parameters of the source function.
\<close>

definition estimate_num_rr_nodes_per_type ::
  "t_grid_tile list list \<Rightarrow> DeviceCoordinator \<Rightarrow> t_grid_tile list list \<Rightarrow> nat list
     \<Rightarrow> t_segment_inf list \<Rightarrow> (error + nat list) option" where
  "estimate_num_rr_nodes_per_type grid device_size grids chan_width segment_infs =
     bind_r (Some (count_grid_pins device_size grid grids)) (\<lambda>pins.
     bind_r (count_chanx device_size grids chan_width segment_infs) (\<lambda>n_chanx.
     bind_r (count_chany device_size grids chan_width segment_infs) (\<lambda>n_chany.
     Some (Inr [fst pins, snd pins, snd pins, fst pins, n_chanx, n_chany, 0]))))"

section \<open>The grid set-up of \<^verbatim>\<open>build_tileable_unidir_rr_graph\<close>\<close>

text \<open>
  \<^verbatim>\<open>std::vector::resize\<close>: new elements are value-initialised, for a tile the null
  type pointer and offset 0. A negative \<^verbatim>\<open>int\<close> size becomes a huge \<^verbatim>\<open>size_t\<close>
  and the allocation throws.
\<close>

definition zero_tile :: t_grid_tile where
  "zero_tile = \<lparr>type = None, offset = 0\<rparr>"

definition resize :: "'a \<Rightarrow> 'a list \<Rightarrow> nat \<Rightarrow> 'a list" where
  "resize dflt xs n = take n xs @ replicate (n - length xs) dflt"

text \<open>
  The inner loop (lines 511 to 513), as written: its condition compares \<open>ix\<close>, not
  \<open>iy\<close>, with \<open>L_ny + 2\<close>, and its body assigns to the global array \<^verbatim>\<open>grid\<close>, not to
  the local \<^verbatim>\<open>grids\<close>. \<open>L_grid\<close> and \<open>grid\<close> are arrays of rows; an index outside
  a row is an access out of range. The function returns the global array. (When the
  caller passes the global array itself as \<open>L_grid\<close>, each assignment rewrites a cell
  with its own value.)
\<close>

function grid_copy_column ::
  "int \<Rightarrow> t_grid_tile list list \<Rightarrow> nat \<Rightarrow> nat \<Rightarrow> t_grid_tile list list
     \<Rightarrow> error + t_grid_tile list list" where
  "grid_copy_column L_ny L_grid ix iy grid =
     (if int ix < L_ny + 2 then
        (if ix < length L_grid \<and> iy < length (L_grid ! ix) \<and>
            ix < length grid \<and> iy < length (grid ! ix)
         then grid_copy_column L_ny L_grid ix (Suc iy)
                (grid[ix := (grid ! ix)[iy := L_grid ! ix ! iy]])
         else Inl Out_of_range)
      else Inr grid)"
  by pat_completeness auto
termination
  by (relation "measure (\<lambda>(L_ny, L_grid, ix, iy, grid). length (L_grid ! ix) - iy)") auto

declare grid_copy_column.simps [simp del]

text \<open>The outer loop (lines 509 to 514); the state is \<open>(grids, grid)\<close>.\<close>

function grid_copy_columns ::
  "int \<Rightarrow> int \<Rightarrow> t_grid_tile list list \<Rightarrow> nat \<Rightarrow> t_grid_tile list list \<times> t_grid_tile list list
     \<Rightarrow> error + t_grid_tile list list \<times> t_grid_tile list list" where
  "grid_copy_columns L_nx L_ny L_grid ix s =
     (if int ix < L_nx + 2 then
        (if L_ny + 2 < 0 then Inl Length_error
         else
           (case grid_copy_column L_ny L_grid ix 0 (snd s) of
              Inl e \<Rightarrow> Inl e
            | Inr grid' \<Rightarrow>
                grid_copy_columns L_nx L_ny L_grid (Suc ix)
                  ((fst s)[ix := resize zero_tile (fst s ! ix) (nat (L_ny + 2))], grid')))
      else Inr s)"
  by pat_completeness auto
termination
  by (relation "measure (\<lambda>(L_nx, L_ny, L_grid, ix, s). nat (L_nx + 2) - ix)") auto

declare grid_copy_columns.simps [simp del]

definition build_grids ::
  "int \<Rightarrow> int \<Rightarrow> t_grid_tile list list \<Rightarrow> t_grid_tile list list
     \<Rightarrow> error + t_grid_tile list list \<times> t_grid_tile list list" where
  "build_grids L_nx L_ny L_grid grid =
     (if L_nx + 2 < 0 then Inl Length_error
      else grid_copy_columns L_nx L_ny L_grid 0 (resize [] [] (nat (L_nx + 2)), grid))"

section \<open>The multiplexer bitstream builder\<close>

text \<open>
  The classes \<^verbatim>\<open>CircuitLibrary\<close>, \<^verbatim>\<open>MuxLibrary\<close> and \<^verbatim>\<open>MuxGraph\<close> are not among
  the sources; each is the record of the queries the builder makes. A circuit model
  is named by its id.
\<close>

type_synonym CircuitModelId = nat

datatype e_spice_model_design_tech =
  SPICE_MODEL_DESIGN_CMOS | SPICE_MODEL_DESIGN_RRAM | SPICE_MODEL_DESIGN_OTHER

record CircuitLibrary =
  mux_add_const_input :: "CircuitModelId \<Rightarrow> bool"
  design_tech_type :: "CircuitModelId \<Rightarrow> e_spice_model_design_tech"

record MuxGraph =
  outputs :: "nat list"
  output_id :: "nat \<Rightarrow> nat"
  decode_memory_bits :: "nat \<Rightarrow> nat \<Rightarrow> bool list"

text \<open>
  Modelled from the spec: the mux library (mux_library.h is not among the sources)
  caches one graph per pair of model and implemented size; a query for an absent graph
  is fatal.
\<close>

type_synonym MuxLibrary = "CircuitModelId \<times> nat \<Rightarrow> MuxGraph option"

definition mux_graph :: "MuxLibrary \<Rightarrow> CircuitModelId \<Rightarrow> nat \<Rightarrow> error + MuxGraph" where
  "mux_graph mux_lib mux_model implemented_mux_size =
     (case mux_lib (mux_model, implemented_mux_size) of
        None \<Rightarrow> Inl Mux_graph_absent
      | Some g \<Rightarrow> Inr g)"

text \<open>
  Modelled from the spec: \<^verbatim>\<open>find_mux_implementation_num_inputs\<close> (mux_utils.h is
  not among the sources) returns the declared size, incremented by one if the model
  adds a constant input.
\<close>

definition find_mux_implementation_num_inputs ::
  "CircuitLibrary \<Rightarrow> CircuitModelId \<Rightarrow> nat \<Rightarrow> nat" where
  "find_mux_implementation_num_inputs circuit_lib circuit_model mux_size =
     (if mux_add_const_input circuit_lib circuit_model then mux_size + 1 else mux_size)"

text \<open>
  Modelled from the spec: the macro \<^verbatim>\<open>DEFAULT_MUX_PATH_ID\<close> (fpga_x2p_types.h is not
  among the sources) is the fixed sentinel for the first input, index 0. The other
  macro, \<^verbatim>\<open>DEFAULT_PATH_ID\<close>, the marker of a request for the default path, has no
  value in the spec; it is a parameter of the functions that read it.
\<close>

definition DEFAULT_MUX_PATH_ID :: nat where
  "DEFAULT_MUX_PATH_ID = 0"

definition find_mux_default_path_id :: "CircuitLibrary \<Rightarrow> CircuitModelId \<Rightarrow> nat \<Rightarrow> nat" where
  "find_mux_default_path_id circuit_lib mux_model mux_size =
     (if mux_add_const_input circuit_lib mux_model then mux_size else DEFAULT_MUX_PATH_ID)"

text \<open>
  The conversion of an \<^verbatim>\<open>int\<close> to \<^verbatim>\<open>size_t\<close> (line 64): a negative \<^verbatim>\<open>int\<close>
  becomes \<open>2 ^ 64\<close> plus its value.
\<close>

definition size_t_of_int :: "int \<Rightarrow> nat" where
  "size_t_of_int i = (if i < 0 then nat (2 ^ 64 + i) else nat i)"

text \<open>
  Lines 60 and 64 to 71 of \<^verbatim>\<open>build_cmos_mux_bitstream\<close>: the input of the graph
  that the query selects.
\<close>

definition cmos_datapath_id ::
  "int \<Rightarrow> CircuitLibrary \<Rightarrow> CircuitModelId \<Rightarrow> nat \<Rightarrow> int \<Rightarrow> error + nat" where
  "cmos_datapath_id DEFAULT_PATH_ID circuit_lib mux_model mux_size path_id =
     (let implemented_mux_size =
            find_mux_implementation_num_inputs circuit_lib mux_model mux_size;
          datapath_id = size_t_of_int path_id
      in if DEFAULT_PATH_ID = path_id
         then Inr (find_mux_default_path_id circuit_lib mux_model implemented_mux_size)
         else if datapath_id < mux_size then Inr datapath_id
         else Inl Assertion_failed)"

definition build_cmos_mux_bitstream ::
  "int \<Rightarrow> CircuitLibrary \<Rightarrow> CircuitModelId \<Rightarrow> MuxLibrary \<Rightarrow> nat \<Rightarrow> int \<Rightarrow> error + bool list"
  where
  "build_cmos_mux_bitstream DEFAULT_PATH_ID circuit_lib mux_model mux_lib mux_size path_id =
     (case mux_graph mux_lib mux_model
             (find_mux_implementation_num_inputs circuit_lib mux_model mux_size) of
        Inl e \<Rightarrow> Inl e
      | Inr g \<Rightarrow>
          (case cmos_datapath_id DEFAULT_PATH_ID circuit_lib mux_model mux_size path_id of
             Inl e \<Rightarrow> Inl e
           | Inr datapath_id \<Rightarrow>
               if 1 = length (outputs g)
               then Inr (decode_memory_bits g datapath_id (output_id g (outputs g ! 0)))
               else Inl Assertion_failed))"

definition build_mux_bitstream ::
  "int \<Rightarrow> CircuitLibrary \<Rightarrow> CircuitModelId \<Rightarrow> MuxLibrary \<Rightarrow> nat \<Rightarrow> int \<Rightarrow> error + bool list"
  where
  "build_mux_bitstream DEFAULT_PATH_ID circuit_lib mux_model mux_lib mux_size path_id =
     (case design_tech_type circuit_lib mux_model of
        SPICE_MODEL_DESIGN_CMOS \<Rightarrow>
          build_cmos_mux_bitstream DEFAULT_PATH_ID circuit_lib mux_model mux_lib mux_size path_id
      | SPICE_MODEL_DESIGN_RRAM \<Rightarrow> Inr []
      | SPICE_MODEL_DESIGN_OTHER \<Rightarrow> Inl Invalid_design_tech)"

section \<open>Concrete inputs\<close>

definition example_segs :: "t_segment_inf list" where
  "example_segs = [\<lparr>length_s = 2, frequency = 1, longline = False\<rparr>,
                   \<lparr>length_s = 4, frequency = 1, longline = False\<rparr>]"

definition length4_segs :: "t_segment_inf list" where
  "length4_segs = [\<lparr>length_s = 4, frequency = 1, longline = False\<rparr>]"

definition length2_segs :: "t_segment_inf list" where
  "length2_segs = [\<lparr>length_s = 2, frequency = 1, longline = False\<rparr>]"

definition length1_segs :: "t_segment_inf list" where
  "length1_segs = [\<lparr>length_s = 1, frequency = 1, longline = False\<rparr>]"


text \<open>
  Tiles: an empty tile, and an IO tile of height 1 with two pins on every side, pin 0
  a driver and pin 1 a receiver.
\<close>

definition empty_descriptor :: s_type_descriptor where
  "empty_descriptor =
     \<lparr>type_id = EMPTY_TYPE, num_pins = 0, height = 1,
      pinloc = (\<lambda>h side ipin. 0), pin_class = (\<lambda>ipin. OPEN)\<rparr>"

definition io_descriptor :: s_type_descriptor where
  "io_descriptor =
     \<lparr>type_id = IO_TYPE, num_pins = 2, height = 1,
      pinloc = (\<lambda>h side ipin. 1),
      pin_class = (\<lambda>ipin. if ipin = 0 then DRIVER else RECEIVER)\<rparr>"

definition empty_tile :: t_grid_tile where
  "empty_tile = \<lparr>type = Some empty_descriptor, offset = 0\<rparr>"

definition io_tile :: t_grid_tile where
  "io_tile = \<lparr>type = Some io_descriptor, offset = 0\<rparr>"

text \<open>
  Grids are indexed \<open>[ix][iy]\<close>. A \<open>3 \<times> 3\<close> grid (\<open>L_nx = L_ny = 1\<close>) with one IO
  tile: in the middle of the top row, of the bottom row, of the left column, of the
  right column.
\<close>

definition grid_io_top :: "t_grid_tile list list" where
  "grid_io_top = [[empty_tile, empty_tile, empty_tile],
                  [empty_tile, empty_tile, io_tile],
                  [empty_tile, empty_tile, empty_tile]]"

definition grid_io_bottom :: "t_grid_tile list list" where
  "grid_io_bottom = [[empty_tile, empty_tile, empty_tile],
                     [io_tile, empty_tile, empty_tile],
                     [empty_tile, empty_tile, empty_tile]]"

definition grid_io_right :: "t_grid_tile list list" where
  "grid_io_right = [[empty_tile, empty_tile, empty_tile],
                    [empty_tile, empty_tile, empty_tile],
                    [empty_tile, io_tile, empty_tile]]"

definition grid_empty_2x2 :: "t_grid_tile list list" where
  "grid_empty_2x2 = [[empty_tile, empty_tile], [empty_tile, empty_tile]]"

definition grid_empty_4x4 :: "t_grid_tile list list" where
  "grid_empty_4x4 = replicate 4 (replicate 4 empty_tile)"

text \<open>A circuit library whose multiplexer models are CMOS and add a constant input.\<close>

definition const_input_cmos_lib :: CircuitLibrary where
  "const_input_cmos_lib =
     \<lparr>mux_add_const_input = (\<lambda>m. True),
      design_tech_type = (\<lambda>m. SPICE_MODEL_DESIGN_CMOS)\<rparr>"

text \<open>
  A mux graph with one output, and a library that holds it for model 0 at the
  implemented size 5; the decoded bits are a stand-in that shows the selected input.
\<close>

definition one_output_graph :: MuxGraph where
  "one_output_graph =
     \<lparr>outputs = [7], output_id = (\<lambda>node. 0),
      decode_memory_bits = (\<lambda>input_id out. replicate input_id True)\<rparr>"

definition example_mux_lib :: MuxLibrary where
  "example_mux_lib = (\<lambda>k. if k = (0, 5) then Some one_output_graph else None)"

section \<open>The claim on the CHANX total, in its own words\<close>

text \<open>
  The CHANX total as the claim describes it: the left, the right and the interior
  representative are all built from the channel width of the X axis.
\<close>

definition count_chanx_spec ::
  "DeviceCoordinator \<Rightarrow> 'a list list \<Rightarrow> nat \<Rightarrow> t_segment_inf list \<Rightarrow> (error + nat) option"
  where
  "count_chanx_spec device_size grids x_width segment_infs =
     count_chanx device_size grids [x_width, x_width] segment_infs"

section \<open>The layout of the tracks of a channel\<close>

text \<open>
  The two tracks that round \<open>itrack\<close> of the loop over a segment type appends when
  the track counter is \<open>cur\<close>; the tracks of a whole type; the position, in the
  channel, of the increasing track of pair \<open>counter\<close> of type \<open>iseg\<close>; and the
  tracks of the first \<open>m\<close> types.
\<close>

definition track_pair :: "nat \<Rightarrow> nat \<Rightarrow> nat \<Rightarrow> track list" where
  "track_pair seg_len cur itrack =
     [\<lparr>track_node_id = cur, track_direction = INC_DIRECTION, seg_length = seg_len,
       track_start = (itrack mod seg_len = 0), track_end = False\<rparr>,
      \<lparr>track_node_id = cur + 1, track_direction = DEC_DIRECTION, seg_length = seg_len,
       track_start = (itrack mod seg_len = 0), track_end = False\<rparr>]"

definition type_run :: "nat \<Rightarrow> nat \<Rightarrow> nat \<Rightarrow> track list" where
  "type_run seg_len cur n = concat (map (\<lambda>k. track_pair seg_len (cur + 2 * k) k) [0..<n])"

definition pair_position :: "nat list \<Rightarrow> nat \<Rightarrow> nat \<Rightarrow> nat" where
  "pair_position num_tracks iseg counter = 2 * (sum_list (take iseg num_tracks) + counter)"

definition all_runs :: "nat \<Rightarrow> t_segment_inf list \<Rightarrow> nat list \<Rightarrow> nat \<Rightarrow> track list" where
  "all_runs max_seg_length segment_inf num_tracks m =
     concat (map (\<lambda>i. type_run (effective_length max_seg_length (segment_inf ! i))
                        (pair_position num_tracks i 0) (num_tracks ! i)) [0..<m])"

section \<open>Invariants\<close>

text \<open>
  The invariant of the \<^verbatim>\<open>while\<close> loop: the counts add up to \<open>assigned\<close>, and once
  something is assigned, \<open>size_v\<close> is the group size of type \<open>imax\<close>, it is part of
  that type's count, and without it the budget was not yet reached.
\<close>

definition alloc_inv :: "nat \<Rightarrow> t_segment_inf list \<Rightarrow> bool \<Rightarrow> alloc_state \<Rightarrow> bool" where
  "alloc_inv W segs full st =
     (length (result st) = length segs \<and> length (demand st) = length segs \<and>
      imax st < length segs \<and> sum_list (result st) = assigned st \<and>
      (0 < assigned st \<longrightarrow>
         size_v st = group_size full (segs ! imax st) \<and>
         size_v st \<le> result st ! imax st \<and>
         assigned st < W + size_v st))"

section \<open>Properties of the segment allocator\<close>

lemma find_max_demand_range:
  "find_max_demand ds k mx im = im \<or>
   (k \<le> find_max_demand ds k mx im \<and> find_max_demand ds k mx im < k + length ds)"
proof (induction ds arbitrary: k mx im)
  case Nil
  then show ?case by simp
next
  case (Cons d ds)
  from Cons.IH [of "Suc k" "max d mx" "if d > mx then k else im"]
  show ?case by (auto split: if_splits)
qed

lemma find_max_demand_less:
  "im < length ds \<Longrightarrow> find_max_demand ds 0 mx im < length ds"
  using find_max_demand_range [of ds 0 mx im] by auto

lemma sum_list_bump:
  "i < length (xs :: nat list) \<Longrightarrow> sum_list (xs[i := xs ! i + k]) = sum_list xs + k"
  by (simp add: sum_list_update)

lemma assign_tracks_returns:
  assumes pos: "\<forall>s\<in>set segs. 0 < group_size full s"
  shows "alloc_inv W segs full st \<Longrightarrow>
         \<exists>st'. assign_tracks W segs full r st = Some (Inr st') \<and>
               alloc_inv W segs full st' \<and> W \<le> assigned st'"
proof (induction "W - assigned st" arbitrary: st rule: less_induct)
  case less
  show ?case
  proof (cases "assigned st < W")
    case False
    then show ?thesis using less.prems
      by (subst assign_tracks.simps) simp
  next
    case True
    define im where "im = find_max_demand (demand st) 0 0 (imax st)"
    define sz where "sz = group_size full (segs ! im)"
    define st2 where "st2 = \<lparr>demand = (demand st)[im := demand st ! im - int r],
               result = (result st)[im := result st ! im + sz],
               assigned = assigned st + sz, size_v = sz, imax = im\<rparr>"
    from less.prems have len: "length (result st) = length segs"
      "length (demand st) = length segs"
      "imax st < length segs" "sum_list (result st) = assigned st"
      by (simp_all add: alloc_inv_def)
    have im: "im < length segs"
      unfolding im_def using find_max_demand_less [of "imax st" "demand st" 0] len by simp
    then have szpos: "0 < sz" using pos by (simp add: sz_def)
    have inv2: "alloc_inv W segs full st2"
      using len im True by (simp add: alloc_inv_def st2_def sum_list_bump sz_def)
    have "W - assigned st2 < W - assigned st"
      using True szpos by (simp add: st2_def)
    from less.hyps [OF this inv2] obtain st' where
      st': "assign_tracks W segs full r st2 = Some (Inr st')"
        "alloc_inv W segs full st'" "W \<le> assigned st'"
      by blast
    have "assign_tracks W segs full r st = assign_tracks W segs full r st2"
      using True im
      by (subst assign_tracks.simps)
         (simp add: Let_def im_def [symmetric] sz_def group_size_def st2_def)
    with st' show ?thesis by simp
  qed
qed

lemma init_alloc_inv:
  "segs \<noteq> [] \<Longrightarrow> alloc_inv W segs full (init_alloc W segs full)"
  by (simp add: alloc_inv_def init_alloc_def Let_def)

lemma get_num_tracks_zero_budget:
  "get_num_tracks_per_seg_type 0 segs full = Some (Inr (replicate (length segs) 0))"
proof -
  have "assign_tracks 0 segs full (reduce_of segs) (init_alloc 0 segs full)
          = Some (Inr (init_alloc 0 segs full))"
    by (subst assign_tracks.simps) simp
  then show ?thesis
    by (simp add: get_num_tracks_per_seg_type_def undo_last_def size_t_sub_def init_alloc_def
        Let_def map_replicate_const)
qed

text \<open>
  The result of the allocator for a positive budget, a non-empty list and positive
  group sizes. The proof does not look at the demands: whichever type a round
  selects, the sum of the counts ends within half the last group size of the budget.
\<close>

lemma get_num_tracks_total:
  assumes W: "0 < W" and ne: "segs \<noteq> []"
    and gpos: "\<forall>s\<in>set segs. 0 < group_size full s"
  shows "\<exists>res i. get_num_tracks_per_seg_type W segs full = Some (Inr res) \<and>
           length res = length segs \<and> i < length segs \<and>
           \<bar>int (sum_list res) - int W\<bar> < int (group_size full (segs ! i)) \<and>
           2 * \<bar>int (sum_list res) - int W\<bar> \<le> int (group_size full (segs ! i)) \<and>
           ((\<forall>s\<in>set segs. group_size full s = 1) \<longrightarrow> sum_list res = W)"
proof -
  from assign_tracks_returns [OF gpos init_alloc_inv [OF ne], of W "reduce_of segs"]
  obtain st where run: "assign_tracks W segs full (reduce_of segs)
                          (init_alloc W segs full) = Some (Inr st)"
    and inv: "alloc_inv W segs full st" and fin: "W \<le> assigned st"
    by blast
  define a z i where "a = assigned st" and "z = size_v st" and "i = imax st"
  from inv fin W have facts:
    "length (result st) = length segs" "i < length segs"
    "sum_list (result st) = a" "z = group_size full (segs ! i)"
    "z \<le> result st ! i" "a < W + z" "W \<le> a"
    by (auto simp: alloc_inv_def a_def z_def i_def)
  have zpos: "0 < z" using facts gpos by simp
  obtain ov where ov: "a = W + ov" using facts(7) by (auto simp: le_iff_add)
  show ?thesis
  proof (cases "a - W > z div 2")
    case False
    then have res: "get_num_tracks_per_seg_type W segs full = Some (Inr (result st))"
      using run facts
      by (simp add: get_num_tracks_per_seg_type_def undo_last_def size_t_sub_def a_def z_def)
    have "2 * ov \<le> z" "ov < z" using False facts(6) by (simp_all add: ov)
    then have "2 * \<bar>int a - int W\<bar> \<le> int z" "\<bar>int a - int W\<bar> < int z"
      by (simp_all add: ov)
    moreover have "(\<forall>s\<in>set segs. group_size full s = 1) \<longrightarrow> a = W"
    proof
      assume "\<forall>s\<in>set segs. group_size full s = 1"
      then have "z = 1" using facts by simp
      then show "a = W" using facts by simp
    qed
    ultimately show ?thesis using res facts(1,2,3)
      by (intro exI [of _ "result st"] exI [of _ i]) (simp add: facts(4) [symmetric])
  next
    case True
    define res where "res = (result st)[i := result st ! i - z]"
    have r: "get_num_tracks_per_seg_type W segs full = Some (Inr res)"
      using run facts True
      by (simp add: get_num_tracks_per_seg_type_def undo_last_def size_t_sub_def a_def z_def
          i_def res_def)
    have s: "sum_list res = a - z"
      using facts by (simp add: res_def sum_list_update)
    have ovz: "z < 2 * ov" "ov < z" using True facts(6) by (simp_all add: ov)
    then obtain un where un: "z = ov + un" by (auto simp: less_iff_Suc_add)
    have az: "a - z = W - un" "un \<le> W"
      using facts(3,5,1,2) elem_le_sum_list [of i "result st"] by (simp_all add: ov un)
    have "2 * un \<le> z" "un < z" using ovz by (simp_all add: un)
    then have "2 * \<bar>int (a - z) - int W\<bar> \<le> int z" "\<bar>int (a - z) - int W\<bar> < int z"
      using az(2) by (simp_all add: az(1))
    moreover have "(\<forall>s\<in>set segs. group_size full s = 1) \<longrightarrow> a - z = W"
    proof
      assume "\<forall>s\<in>set segs. group_size full s = 1"
      then have "z = 1" using facts by simp
      then show "a - z = W" using ovz by simp
    qed
    moreover have "length res = length segs" using facts(1) by (simp add: res_def)
    ultimately show ?thesis using r facts(2)
      by (intro exI [of _ res] exI [of _ i]) (simp add: s facts(4) [symmetric])
  qed
qed

text \<open>
  C2. For every positive track budget \<open>W\<close> and every non-empty list of segment
  descriptors with positive lengths and frequencies, \<open>get_num_tracks_per_seg_type\<close>
  returns a vector with one count per segment type (counts are \<^verbatim>\<open>size_t\<close> values,
  and the subtraction of the undo step does not wrap around) whose sum differs from
  \<open>W\<close> by less than one group size, in fact by at most half the size of the last
  group assigned; when all group sizes are 1 the sum is exactly \<open>W\<close>.
\<close>

theorem get_num_tracks_sum_within_group:
  assumes "0 < W" and "segment_inf \<noteq> []"
    and "\<forall>s\<in>set segment_inf. 0 < length_s s \<and> 0 < frequency s"
  shows "\<exists>res i. get_num_tracks_per_seg_type W segment_inf full = Some (Inr res) \<and>
           length res = length segment_inf \<and> i < length segment_inf \<and>
           \<bar>int (sum_list res) - int W\<bar> < int (group_size full (segment_inf ! i)) \<and>
           2 * \<bar>int (sum_list res) - int W\<bar> \<le> int (group_size full (segment_inf ! i)) \<and>
           ((\<forall>s\<in>set segment_inf. group_size full s = 1) \<longrightarrow> sum_list res = W)"
proof (rule get_num_tracks_total)
  show "\<forall>s\<in>set segment_inf. 0 < group_size full s"
    using assms(3) by (simp add: group_size_def)
qed (use assms in simp_all)

theorem get_num_tracks_sum_within_group_witness:
  "\<exists>res i. get_num_tracks_per_seg_type 6 example_segs True = Some (Inr res) \<and>
     length res = length example_segs \<and> i < length example_segs \<and>
     \<bar>int (sum_list res) - int 6\<bar> < int (group_size True (example_segs ! i)) \<and>
     2 * \<bar>int (sum_list res) - int 6\<bar> \<le> int (group_size True (example_segs ! i))"
proof -
  have h1: "0 < (6::nat)" by simp
  have h2: "example_segs \<noteq> []" by (simp add: example_segs_def)
  have h3: "\<forall>s\<in>set example_segs. 0 < length_s s \<and> 0 < frequency s"
    by (simp add: example_segs_def)
  from get_num_tracks_sum_within_group [OF h1 h2 h3, of True]
  show ?thesis by (elim exE conjE) (intro exI conjI; assumption)
qed

lemma get_num_tracks_example:
  "get_num_tracks_per_seg_type 6 example_segs True = Some (Inr [2, 4])"
  by (simp add: get_num_tracks_per_seg_type_def assign_tracks.simps init_alloc_def
      reduce_of_def undo_last_def size_t_sub_def example_segs_def)

text \<open>
  C9, as the claim states it, fails: with an empty segment list and a positive budget
  the first round of the loop indexes the empty vectors.
\<close>

theorem get_num_tracks_empty_list_counterexample:
  "get_num_tracks_per_seg_type 1 [] True = Some (Inl Out_of_range)"
  by (simp add: get_num_tracks_per_seg_type_def assign_tracks.simps init_alloc_def
      reduce_of_def)

text \<open>
  C9, amended. For \<open>W = 0\<close> and any segment list, the empty one too, the allocator
  returns the all-zero vector with one entry per segment type, and the assignment loop
  returns its initial state at once. For a positive \<open>W\<close> the empty segment list is the
  failure mode: the first round of the loop indexes the empty vectors out of range and
  no vector is returned. For a non-empty list of positive group sizes the allocator
  returns a vector for every \<open>W\<close>.
\<close>

theorem get_num_tracks_zero_budget_or_empty_list:
  "get_num_tracks_per_seg_type 0 segment_inf full
     = Some (Inr (replicate (length segment_inf) 0)) \<and>
   assign_tracks 0 segment_inf full r st = Some (Inr st) \<and>
   (0 < W \<longrightarrow> get_num_tracks_per_seg_type W [] full = Some (Inl Out_of_range)) \<and>
   (segment_inf \<noteq> [] \<and> (\<forall>s\<in>set segment_inf. 0 < group_size full s) \<longrightarrow>
      (\<exists>res. get_num_tracks_per_seg_type W segment_inf full = Some (Inr res) \<and>
             length res = length segment_inf))"
proof (intro conjI impI)
  show "get_num_tracks_per_seg_type 0 segment_inf full
          = Some (Inr (replicate (length segment_inf) 0))"
    by (rule get_num_tracks_zero_budget)
  show "assign_tracks 0 segment_inf full r st = Some (Inr st)"
    by (subst assign_tracks.simps) simp
  show "get_num_tracks_per_seg_type W [] full = Some (Inl Out_of_range)" if "0 < W"
    using that
    by (simp add: get_num_tracks_per_seg_type_def init_alloc_def reduce_of_def)
       (subst assign_tracks.simps, simp)
  show "\<exists>res. get_num_tracks_per_seg_type W segment_inf full = Some (Inr res) \<and>
             length res = length segment_inf"
    if h: "segment_inf \<noteq> [] \<and> (\<forall>s\<in>set segment_inf. 0 < group_size full s)"
  proof (cases "W = 0")
    case True
    then show ?thesis by (simp add: get_num_tracks_zero_budget)
  next
    case False
    then have "0 < W" by simp
    from get_num_tracks_total [OF this, of segment_inf full] h
    show ?thesis by blast
  qed
qed

theorem get_num_tracks_zero_budget_or_empty_list_witness:
  "get_num_tracks_per_seg_type 0 example_segs True
     = Some (Inr (replicate (length example_segs) 0)) \<and>
   get_num_tracks_per_seg_type 3 [] True = Some (Inl Out_of_range) \<and>
   (\<exists>res. get_num_tracks_per_seg_type 3 example_segs True = Some (Inr res) \<and>
          length res = length example_segs)"
proof -
  have h: "example_segs \<noteq> [] \<and> (\<forall>s\<in>set example_segs. 0 < group_size True s)"
    by (simp add: example_segs_def group_size_def)
  from get_num_tracks_zero_budget_or_empty_list
         [of example_segs True "reduce_of example_segs" "init_alloc 0 example_segs True" 3] h
  show ?thesis by simp
qed


section \<open>Properties of the channel builder\<close>

lemma for_loop_append:
  "for_loop body (xs @ ys) s =
     (case for_loop body xs s of Inl e \<Rightarrow> Inl e | Inr s' \<Rightarrow> for_loop body ys s')"
  by (induction xs arbitrary: s) (auto split: sum.splits)

lemma add_track_pair_eq:
  "0 < seg_len \<Longrightarrow>
   add_track_pair seg_len itrack (cur, d) = Inr (cur + 2, d @ track_pair seg_len cur itrack)"
  by (simp add: add_track_pair_def add_track_def track_pair_def Let_def)

lemma type_run_Suc:
  "type_run seg_len cur (Suc n) = type_run seg_len cur n @ track_pair seg_len (cur + 2 * n) n"
  by (simp add: type_run_def)

lemma length_type_run: "length (type_run seg_len cur n) = 2 * n"
  by (induction n) (simp_all add: type_run_Suc, simp_all add: type_run_def track_pair_def)

lemma type_run_loop:
  "0 < n \<longrightarrow> 0 < seg_len \<Longrightarrow>
   for_loop (add_track_pair seg_len) [0..<n] (cur, d)
     = Inr (cur + 2 * n, d @ type_run seg_len cur n)"
proof (induction n)
  case 0
  then show ?case by (simp add: type_run_def)
next
  case (Suc n)
  then show ?case
    by (simp add: for_loop_append add_track_pair_eq type_run_Suc)
qed

lemma type_run_loop_division_by_zero:
  "0 < n \<Longrightarrow> for_loop (add_track_pair 0) [0..<n] s = Inl Division_by_zero"
  by (simp add: upt_conv_Cons add_track_pair_def)

lemma type_run_nth:
  "k < n \<Longrightarrow>
   type_run seg_len cur n ! (2 * k) = track_pair seg_len (cur + 2 * k) k ! 0 \<and>
   type_run seg_len cur n ! (2 * k + 1) = track_pair seg_len (cur + 2 * k) k ! 1"
proof (induction n)
  case 0
  then show ?case by simp
next
  case (Suc n)
  show ?case
  proof (cases "k < n")
    case True
    with Suc.IH show ?thesis
      by (simp add: type_run_Suc nth_append length_type_run)
  next
    case False
    with Suc.prems have "k = n" by simp
    then show ?thesis
      by (simp add: type_run_Suc nth_append length_type_run)
  qed
qed

lemma sum_list_take_Suc:
  "m < length (xs :: nat list) \<Longrightarrow> sum_list (take (Suc m) xs) = sum_list (take m xs) + xs ! m"
  by (simp add: take_Suc_conv_app_nth)

lemma sum_list_take_mono:
  "i \<le> j \<Longrightarrow> sum_list (take i (xs :: nat list)) \<le> sum_list (take j xs)"
proof -
  assume "i \<le> j"
  then obtain d where "j = i + d" by (auto simp: le_iff_add)
  then show ?thesis by (simp add: take_add)
qed

lemma all_runs_Suc:
  "all_runs ml segs nt (Suc m) =
     all_runs ml segs nt m @
     type_run (effective_length ml (segs ! m)) (pair_position nt m 0) (nt ! m)"
  by (simp add: all_runs_def)

lemma length_all_runs:
  "m \<le> length nt \<Longrightarrow> length (all_runs ml segs nt m) = 2 * sum_list (take m nt)"
proof (induction m)
  case 0
  then show ?case by (simp add: all_runs_def)
next
  case (Suc m)
  then show ?case
    by (simp add: all_runs_Suc length_type_run sum_list_take_Suc)
qed

lemma all_tracks_loop:
  assumes len: "length nt = length segs"
  shows "m \<le> length segs \<Longrightarrow>
         \<forall>i<m. 0 < nt ! i \<longrightarrow> 0 < effective_length ml (segs ! i) \<Longrightarrow>
         for_loop (add_seg_type_tracks ml segs nt) [0..<m] (0, [])
           = Inr (2 * sum_list (take m nt), all_runs ml segs nt m)"
proof (induction m)
  case 0
  then show ?case by (simp add: all_runs_def)
next
  case (Suc m)
  then have m: "m < length segs" "m \<le> length segs" by simp_all
  have L: "0 < nt ! m \<longrightarrow> 0 < effective_length ml (segs ! m)"
    using Suc.prems(2) by simp
  have "\<forall>i<m. 0 < nt ! i \<longrightarrow> 0 < effective_length ml (segs ! i)"
    using Suc.prems(2) by simp
  from Suc.IH [OF m(2) this] show ?case
    using m len
    by (simp add: for_loop_append add_seg_type_tracks_def type_run_loop [OF L]
        all_runs_Suc sum_list_take_Suc pair_position_def)
qed

text \<open>
  The first type that has tracks and effective length 0 stops the loop nest:
  \<^verbatim>\<open>itrack % seg_len\<close> divides by zero.
\<close>

lemma all_tracks_loop_division_by_zero:
  assumes len: "length nt = length segs"
  shows "m \<le> length segs \<Longrightarrow>
         \<exists>i<m. 0 < nt ! i \<and> effective_length ml (segs ! i) = 0 \<Longrightarrow>
         for_loop (add_seg_type_tracks ml segs nt) [0..<m] (0, []) = Inl Division_by_zero"
proof (induction m)
  case 0
  then show ?case by simp
next
  case (Suc m)
  then have m: "m < length segs" "m \<le> length segs" by simp_all
  show ?case
  proof (cases "\<exists>i<m. 0 < nt ! i \<and> effective_length ml (segs ! i) = 0")
    case True
    from Suc.IH [OF m(2) True] show ?thesis by (simp add: for_loop_append)
  next
    case False
    with Suc.prems(2) have bad: "0 < nt ! m" "effective_length ml (segs ! m) = 0"
      by (auto simp: less_Suc_eq)
    from False have "\<forall>i<m. 0 < nt ! i \<longrightarrow> 0 < effective_length ml (segs ! i)"
      by auto
    moreover have "add_seg_type_tracks ml segs nt m s = Inl Division_by_zero" for s
      using m len bad
      by (simp add: add_seg_type_tracks_def type_run_loop_division_by_zero)
    ultimately show ?thesis
      using all_tracks_loop [OF len m(2), of ml] by (simp add: for_loop_append)
  qed
qed

lemma all_runs_nth:
  assumes "m \<le> length nt" and "iseg < m" and "counter < nt ! iseg"
  shows "all_runs ml segs nt m ! (pair_position nt iseg counter)
           = track_pair (effective_length ml (segs ! iseg)) (pair_position nt iseg counter)
               counter ! 0 \<and>
         all_runs ml segs nt m ! (pair_position nt iseg counter + 1)
           = track_pair (effective_length ml (segs ! iseg)) (pair_position nt iseg counter)
               counter ! 1"
  using assms
proof (induction m)
  case 0
  then show ?case by simp
next
  case (Suc m)
  have lm: "length (all_runs ml segs nt m) = 2 * sum_list (take m nt)"
    using Suc.prems by (simp add: length_all_runs)
  show ?case
  proof (cases "iseg < m")
    case True
    have "sum_list (take (Suc iseg) nt) \<le> sum_list (take m nt)"
      using True by (intro sum_list_take_mono) simp
    moreover have "sum_list (take (Suc iseg) nt) = sum_list (take iseg nt) + nt ! iseg"
      using True Suc.prems by (simp add: sum_list_take_Suc)
    ultimately have "pair_position nt iseg counter + 1 < length (all_runs ml segs nt m)"
      using Suc.prems(3) by (simp add: lm pair_position_def)
    then show ?thesis
      using Suc.IH True Suc.prems by (simp add: all_runs_Suc nth_append)
  next
    case False
    with Suc.prems have e: "iseg = m" by simp
    define run where
      "run = type_run (effective_length ml (segs ! m)) (pair_position nt m 0) (nt ! m)"
    have p: "pair_position nt m counter = length (all_runs ml segs nt m) + 2 * counter"
      by (simp add: lm pair_position_def)
    have q: "pair_position nt m 0 + 2 * counter = pair_position nt m counter"
      by (simp add: pair_position_def)
    have i1: "all_runs ml segs nt (Suc m) ! (pair_position nt m counter) = run ! (2 * counter)"
      unfolding p all_runs_Suc run_def by (rule nth_append_length_plus)
    have "all_runs ml segs nt (Suc m) ! (length (all_runs ml segs nt m) + (2 * counter + 1))
            = run ! (2 * counter + 1)"
      unfolding all_runs_Suc run_def by (rule nth_append_length_plus)
    then have i2: "all_runs ml segs nt (Suc m) ! (pair_position nt m counter + 1)
            = run ! (2 * counter + 1)"
      by (simp add: p)
    from type_run_nth [OF Suc.prems(3) [unfolded e],
        of "effective_length ml (segs ! m)" "pair_position nt m 0"]
    have "run ! (2 * counter)
            = track_pair (effective_length ml (segs ! m)) (pair_position nt m counter)
                counter ! 0 \<and>
          run ! (2 * counter + 1)
            = track_pair (effective_length ml (segs ! m)) (pair_position nt m counter)
                counter ! 1"
      unfolding run_def q .
    then show ?thesis
      unfolding e i1 i2 .
  qed
qed


lemma add_all_tracks_eq:
  assumes "length nt = length segs"
    and "\<forall>i<length segs. 0 < nt ! i \<longrightarrow> 0 < effective_length ml (segs ! i)"
  shows "add_all_tracks ml segs nt = Inr (2 * sum_list nt, all_runs ml segs nt (length segs))"
  using all_tracks_loop [OF assms(1), of "length segs"] assms
  by (simp add: add_all_tracks_def)

lemma add_all_tracks_division_by_zero:
  assumes "length nt = length segs"
    and "\<exists>i<length segs. 0 < nt ! i \<and> effective_length ml (segs ! i) = 0"
  shows "add_all_tracks ml segs nt = Inl Division_by_zero"
  using all_tracks_loop_division_by_zero [OF assms(1), of "length segs"] assms(2)
  by (simp add: add_all_tracks_def)

text \<open>
  The tracks that the loop nest (lines 213 to 234) appends, before the switch on the
  device side: pair \<open>counter\<close> of type \<open>iseg\<close> is the increasing track at
  \<open>pair_position num_tracks iseg counter\<close> followed by the decreasing track, both with
  the start flag \<open>counter mod effective_length = 0\<close>.
\<close>

lemma add_all_tracks_pattern:
  assumes "length num_tracks = length segment_inf"
    and "\<forall>i<length segment_inf.
           0 < num_tracks ! i \<longrightarrow> 0 < effective_length max_seg_length (segment_inf ! i)"
  shows "\<exists>details.
     add_all_tracks max_seg_length segment_inf num_tracks
       = Inr (2 * sum_list num_tracks, details) \<and>
     length details = 2 * sum_list num_tracks \<and>
     (\<forall>iseg<length segment_inf. \<forall>counter<num_tracks ! iseg.
        details ! pair_position num_tracks iseg counter =
          \<lparr>track_node_id = pair_position num_tracks iseg counter,
           track_direction = INC_DIRECTION,
           seg_length = effective_length max_seg_length (segment_inf ! iseg),
           track_start = (counter mod effective_length max_seg_length (segment_inf ! iseg) = 0),
           track_end = False\<rparr> \<and>
        details ! (pair_position num_tracks iseg counter + 1) =
          \<lparr>track_node_id = pair_position num_tracks iseg counter + 1,
           track_direction = DEC_DIRECTION,
           seg_length = effective_length max_seg_length (segment_inf ! iseg),
           track_start = (counter mod effective_length max_seg_length (segment_inf ! iseg) = 0),
           track_end = False\<rparr>) \<and>
     (\<forall>iseg<length segment_inf. \<forall>counter. \<forall>d<2.
        counter + effective_length max_seg_length (segment_inf ! iseg) < num_tracks ! iseg \<and>
        track_start (details ! (pair_position num_tracks iseg counter + d)) \<longrightarrow>
          track_start (details ! (pair_position num_tracks iseg
             (counter + effective_length max_seg_length (segment_inf ! iseg)) + d)) \<and>
          (\<forall>j. 0 < j \<and> j < effective_length max_seg_length (segment_inf ! iseg) \<longrightarrow>
             \<not> track_start (details ! (pair_position num_tracks iseg (counter + j) + d))))"
proof -
  define details where
    "details = all_runs max_seg_length segment_inf num_tracks (length segment_inf)"
  have run: "add_all_tracks max_seg_length segment_inf num_tracks
               = Inr (2 * sum_list num_tracks, details)"
    unfolding details_def by (rule add_all_tracks_eq [OF assms])
  have len: "length details = 2 * sum_list num_tracks"
    using assms(1) by (simp add: details_def length_all_runs)
  have nth: "details ! pair_position num_tracks iseg counter =
          \<lparr>track_node_id = pair_position num_tracks iseg counter,
           track_direction = INC_DIRECTION,
           seg_length = effective_length max_seg_length (segment_inf ! iseg),
           track_start = (counter mod effective_length max_seg_length (segment_inf ! iseg) = 0),
           track_end = False\<rparr> \<and>
        details ! (pair_position num_tracks iseg counter + 1) =
          \<lparr>track_node_id = pair_position num_tracks iseg counter + 1,
           track_direction = DEC_DIRECTION,
           seg_length = effective_length max_seg_length (segment_inf ! iseg),
           track_start = (counter mod effective_length max_seg_length (segment_inf ! iseg) = 0),
           track_end = False\<rparr>"
    if "iseg < length segment_inf" "counter < num_tracks ! iseg" for iseg counter
    using all_runs_nth [of "length segment_inf" num_tracks iseg counter max_seg_length segment_inf]
      that assms(1)
    by (simp add: details_def track_pair_def)
  have start: "track_start (details ! (pair_position num_tracks iseg counter + d))
                 = (counter mod effective_length max_seg_length (segment_inf ! iseg) = 0)"
    if "iseg < length segment_inf" "counter < num_tracks ! iseg" "d < 2" for iseg counter d
  proof -
    from that(3) have "d = 0 \<or> d = 1" by auto
    then show ?thesis using nth [OF that(1,2)] by auto
  qed
  have spacing: "track_start (details ! (pair_position num_tracks iseg (counter + L) + d)) \<and>
          (\<forall>j. 0 < j \<and> j < L \<longrightarrow>
             \<not> track_start (details ! (pair_position num_tracks iseg (counter + j) + d)))"
    if i: "iseg < length segment_inf" and d: "d < 2"
      and L: "L = effective_length max_seg_length (segment_inf ! iseg)"
      and c: "counter + L < num_tracks ! iseg"
      and s: "track_start (details ! (pair_position num_tracks iseg counter + d))"
    for iseg counter d L
  proof -
    have c0: "counter mod L = 0"
      using s start [OF i _ d, of counter] c L by simp
    have "track_start (details ! (pair_position num_tracks iseg (counter + L) + d))"
      using start [OF i c d] c0 L by simp
    moreover have "\<not> track_start (details ! (pair_position num_tracks iseg (counter + j) + d))"
      if j: "0 < j \<and> j < L" for j
    proof -
      have "counter + j < num_tracks ! iseg" using j c by simp
      moreover have "(counter + j) mod L = j"
        using j c0 by (metis add.commute mod_add_right_eq add.right_neutral mod_less)
      ultimately show ?thesis using start [OF i _ d, of "counter + j"] j L by simp
    qed
    ultimately show ?thesis by blast
  qed
  show ?thesis
    using run len nth spacing by (intro exI [of _ details]) blast
qed

text \<open>The builder, with the even width named.\<close>

lemma build_unidir_even_width:
  "build_unidir_chan_node_details chan_width max_seg_length device_side segment_inf =
     (if even_width chan_width mod 2 \<noteq> 0 then Some (Inl Assertion_failed)
      else if even_width chan_width = 0 then Some (Inr [])
      else
        (case get_num_tracks_per_seg_type (even_width chan_width div 2) segment_inf True of
           None \<Rightarrow> None
         | Some (Inl e) \<Rightarrow> Some (Inl e)
         | Some (Inr num_tracks) \<Rightarrow>
             (case add_all_tracks max_seg_length segment_inf num_tracks of
                Inl e \<Rightarrow> Some (Inl e)
              | Inr s \<Rightarrow>
                  if fst s = even_width chan_width
                  then Some (apply_device_side device_side (snd s))
                  else Some (Inl Assertion_failed))))"
  by (simp only: build_unidir_chan_node_details_def even_width_def Let_def)

text \<open>
  C8, as the claim states it, fails on a channel of a border side: the switch on the
  device side replaces the start flags after the loop. On the left border, width 4
  and one segment type of length 2, the increasing track of pair 1 carries the start
  flag although \<open>1 mod 2\<close> is not 0, and no decreasing track carries it.
\<close>

theorem border_channel_start_flags_counterexample:
  "build_unidir_chan_node_details 4 4 LEFT length2_segs =
     Some (Inr [\<lparr>track_node_id = 0, track_direction = INC_DIRECTION, seg_length = 2,
                    track_start = True, track_end = False\<rparr>,
                \<lparr>track_node_id = 1, track_direction = DEC_DIRECTION, seg_length = 2,
                    track_start = False, track_end = True\<rparr>,
                \<lparr>track_node_id = 2, track_direction = INC_DIRECTION, seg_length = 2,
                    track_start = True, track_end = False\<rparr>,
                \<lparr>track_node_id = 3, track_direction = DEC_DIRECTION, seg_length = 2,
                    track_start = False, track_end = True\<rparr>])"
  by code_simp

text \<open>
  C8, amended. For a channel in the interior of the device (side \<open>NUM_SIDES\<close>), a
  positive width and a non-empty segment list of positive lengths, the allocator
  returns the pair counts \<open>num_tracks\<close> of the segment types, and:
  if a type that has pairs has effective length 0 (a longline type when the maximum
  segment length is 0), the builder stops on the division \<^verbatim>\<open>itrack % seg_len\<close>;
  if every type that has pairs has a positive effective length and the pair counts add
  up to half the even width, the builder returns a channel of that many tracks in
  which pair \<open>counter\<close> of type \<open>iseg\<close> is the increasing track at position
  \<open>pair_position num_tracks iseg counter\<close> followed by the decreasing track, both
  with the effective length, no end flag and the same start flag, set exactly when
  \<open>counter mod effective_length = 0\<close>; so in either direction (\<open>d = 0\<close> increasing,
  \<open>d = 1\<close> decreasing) the next start track of the type after a start track is exactly
  \<open>effective_length\<close> pairs further on.
\<close>

theorem interior_channel_start_flags:
  assumes "0 < chan_width" and "segment_inf \<noteq> []"
    and "\<forall>s\<in>set segment_inf. 0 < length_s s"
  shows "\<exists>num_tracks.
     get_num_tracks_per_seg_type (even_width chan_width div 2) segment_inf True
       = Some (Inr num_tracks) \<and>
     length num_tracks = length segment_inf \<and>
     ((\<exists>iseg<length segment_inf. 0 < num_tracks ! iseg \<and>
          effective_length max_seg_length (segment_inf ! iseg) = 0) \<longrightarrow>
        build_unidir_chan_node_details chan_width max_seg_length NUM_SIDES segment_inf
          = Some (Inl Division_by_zero)) \<and>
     ((\<forall>iseg<length segment_inf. 0 < num_tracks ! iseg \<longrightarrow>
          0 < effective_length max_seg_length (segment_inf ! iseg)) \<and>
      2 * sum_list num_tracks = even_width chan_width \<longrightarrow>
        (\<exists>details.
           build_unidir_chan_node_details chan_width max_seg_length NUM_SIDES segment_inf
             = Some (Inr details) \<and>
           length details = even_width chan_width \<and>
           (\<forall>iseg<length segment_inf. \<forall>counter<num_tracks ! iseg.
              details ! pair_position num_tracks iseg counter =
                \<lparr>track_node_id = pair_position num_tracks iseg counter,
                 track_direction = INC_DIRECTION,
                 seg_length = effective_length max_seg_length (segment_inf ! iseg),
                 track_start =
                   (counter mod effective_length max_seg_length (segment_inf ! iseg) = 0),
                 track_end = False\<rparr> \<and>
              details ! (pair_position num_tracks iseg counter + 1) =
                \<lparr>track_node_id = pair_position num_tracks iseg counter + 1,
                 track_direction = DEC_DIRECTION,
                 seg_length = effective_length max_seg_length (segment_inf ! iseg),
                 track_start =
                   (counter mod effective_length max_seg_length (segment_inf ! iseg) = 0),
                 track_end = False\<rparr>) \<and>
           (\<forall>iseg<length segment_inf. \<forall>counter. \<forall>d<2.
              counter + effective_length max_seg_length (segment_inf ! iseg)
                < num_tracks ! iseg \<and>
              track_start (details ! (pair_position num_tracks iseg counter + d)) \<longrightarrow>
                track_start (details ! (pair_position num_tracks iseg
                   (counter + effective_length max_seg_length (segment_inf ! iseg)) + d)) \<and>
                (\<forall>j. 0 < j \<and> j < effective_length max_seg_length (segment_inf ! iseg) \<longrightarrow>
                   \<not> track_start
                       (details ! (pair_position num_tracks iseg (counter + j) + d))))))"
proof -
  have "even_width chan_width mod 2 = 0"
    by (simp add: even_width_def mod_Suc)
  moreover have "2 \<le> even_width chan_width"
  proof (cases "chan_width mod 2 = 0")
    case True
    then have "2 \<le> chan_width" using assms(1) by presburger
    then show ?thesis using True by (simp add: even_width_def)
  next
    case False
    then show ?thesis using assms(1) by (simp add: even_width_def)
  qed
  ultimately have ev: "0 < even_width chan_width div 2" "even_width chan_width mod 2 = 0"
    "even_width chan_width \<noteq> 0"
    by simp_all
  have gpos: "\<forall>s\<in>set segment_inf. 0 < group_size True s"
    using assms(3) by (simp add: group_size_def)
  from get_num_tracks_total [OF ev(1) assms(2) gpos]
  obtain num_tracks where
    alloc: "get_num_tracks_per_seg_type (even_width chan_width div 2) segment_inf True
              = Some (Inr num_tracks)"
    and len: "length num_tracks = length segment_inf"
    by blast
  have build: "build_unidir_chan_node_details chan_width max_seg_length NUM_SIDES segment_inf
       = (case add_all_tracks max_seg_length segment_inf num_tracks of
            Inl e \<Rightarrow> Some (Inl e)
          | Inr s \<Rightarrow>
              if fst s = even_width chan_width
              then Some (apply_device_side NUM_SIDES (snd s))
              else Some (Inl Assertion_failed))"
    using ev(2,3) alloc by (simp add: build_unidir_even_width)
  have zero: "build_unidir_chan_node_details chan_width max_seg_length NUM_SIDES segment_inf
                = Some (Inl Division_by_zero)"
    if "\<exists>iseg<length segment_inf. 0 < num_tracks ! iseg \<and>
          effective_length max_seg_length (segment_inf ! iseg) = 0"
    using add_all_tracks_division_by_zero [OF len that] by (simp add: build)
  have good: "\<exists>details.
           build_unidir_chan_node_details chan_width max_seg_length NUM_SIDES segment_inf
             = Some (Inr details) \<and>
           length details = even_width chan_width \<and>
           (\<forall>iseg<length segment_inf. \<forall>counter<num_tracks ! iseg.
              details ! pair_position num_tracks iseg counter =
                \<lparr>track_node_id = pair_position num_tracks iseg counter,
                 track_direction = INC_DIRECTION,
                 seg_length = effective_length max_seg_length (segment_inf ! iseg),
                 track_start =
                   (counter mod effective_length max_seg_length (segment_inf ! iseg) = 0),
                 track_end = False\<rparr> \<and>
              details ! (pair_position num_tracks iseg counter + 1) =
                \<lparr>track_node_id = pair_position num_tracks iseg counter + 1,
                 track_direction = DEC_DIRECTION,
                 seg_length = effective_length max_seg_length (segment_inf ! iseg),
                 track_start =
                   (counter mod effective_length max_seg_length (segment_inf ! iseg) = 0),
                 track_end = False\<rparr>) \<and>
           (\<forall>iseg<length segment_inf. \<forall>counter. \<forall>d<2.
              counter + effective_length max_seg_length (segment_inf ! iseg)
                < num_tracks ! iseg \<and>
              track_start (details ! (pair_position num_tracks iseg counter + d)) \<longrightarrow>
                track_start (details ! (pair_position num_tracks iseg
                   (counter + effective_length max_seg_length (segment_inf ! iseg)) + d)) \<and>
                (\<forall>j. 0 < j \<and> j < effective_length max_seg_length (segment_inf ! iseg) \<longrightarrow>
                   \<not> track_start
                       (details ! (pair_position num_tracks iseg (counter + j) + d))))"
    if pos: "\<forall>iseg<length segment_inf. 0 < num_tracks ! iseg \<longrightarrow>
          0 < effective_length max_seg_length (segment_inf ! iseg)"
      and sum: "2 * sum_list num_tracks = even_width chan_width"
  proof -
    from add_all_tracks_pattern [OF len pos]
    obtain details where
      run: "add_all_tracks max_seg_length segment_inf num_tracks
              = Inr (2 * sum_list num_tracks, details)"
      and rest: "length details = 2 * sum_list num_tracks \<and>
     (\<forall>iseg<length segment_inf. \<forall>counter<num_tracks ! iseg.
        details ! pair_position num_tracks iseg counter =
          \<lparr>track_node_id = pair_position num_tracks iseg counter,
           track_direction = INC_DIRECTION,
           seg_length = effective_length max_seg_length (segment_inf ! iseg),
           track_start = (counter mod effective_length max_seg_length (segment_inf ! iseg) = 0),
           track_end = False\<rparr> \<and>
        details ! (pair_position num_tracks iseg counter + 1) =
          \<lparr>track_node_id = pair_position num_tracks iseg counter + 1,
           track_direction = DEC_DIRECTION,
           seg_length = effective_length max_seg_length (segment_inf ! iseg),
           track_start = (counter mod effective_length max_seg_length (segment_inf ! iseg) = 0),
           track_end = False\<rparr>) \<and>
     (\<forall>iseg<length segment_inf. \<forall>counter. \<forall>d<2.
        counter + effective_length max_seg_length (segment_inf ! iseg) < num_tracks ! iseg \<and>
        track_start (details ! (pair_position num_tracks iseg counter + d)) \<longrightarrow>
          track_start (details ! (pair_position num_tracks iseg
             (counter + effective_length max_seg_length (segment_inf ! iseg)) + d)) \<and>
          (\<forall>j. 0 < j \<and> j < effective_length max_seg_length (segment_inf ! iseg) \<longrightarrow>
             \<not> track_start (details ! (pair_position num_tracks iseg (counter + j) + d))))"
      by blast
    have "build_unidir_chan_node_details chan_width max_seg_length NUM_SIDES segment_inf
            = Some (Inr details)"
      using run sum by (simp add: build apply_device_side_def)
    with rest sum show ?thesis
      by (intro exI [of _ details]) simp
  qed
  show ?thesis
    using alloc len zero good by (intro exI [of _ num_tracks]) blast
qed

lemma get_num_tracks_length2:
  "get_num_tracks_per_seg_type 6 length2_segs True = Some (Inr [6])"
  by code_simp

theorem interior_channel_start_flags_witness:
  "\<exists>details. build_unidir_chan_node_details 12 4 NUM_SIDES length2_segs = Some (Inr details) \<and>
     length details = 12 \<and>
     track_direction (details ! 0) = INC_DIRECTION \<and> track_start (details ! 0) \<and>
     track_direction (details ! 1) = DEC_DIRECTION \<and> track_start (details ! 1) \<and>
     \<not> track_start (details ! 2) \<and> \<not> track_start (details ! 3) \<and>
     track_start (details ! 4) \<and> track_start (details ! 5)"
proof -
  have h1: "0 < (12::nat)" by simp
  have h2: "length2_segs \<noteq> []" by (simp add: length2_segs_def)
  have h3: "\<forall>s\<in>set length2_segs. 0 < length_s s" by (simp add: length2_segs_def)
  have e: "even_width 12 = 12" by (simp add: even_width_def)
  have l: "length length2_segs = 1" "effective_length 4 (length2_segs ! 0) = 2"
    by (simp_all add: length2_segs_def effective_length_def)
  from interior_channel_start_flags [OF h1 h2 h3, of 4]
  obtain num_tracks where
    nt: "get_num_tracks_per_seg_type (even_width 12 div 2) length2_segs True
           = Some (Inr num_tracks)"
    and good: "(\<forall>iseg<length length2_segs. 0 < num_tracks ! iseg \<longrightarrow>
          0 < effective_length 4 (length2_segs ! iseg)) \<and>
      2 * sum_list num_tracks = even_width 12 \<longrightarrow>
        (\<exists>details.
           build_unidir_chan_node_details 12 4 NUM_SIDES length2_segs = Some (Inr details) \<and>
           length details = even_width 12 \<and>
           (\<forall>iseg<length length2_segs. \<forall>counter<num_tracks ! iseg.
              details ! pair_position num_tracks iseg counter =
                \<lparr>track_node_id = pair_position num_tracks iseg counter,
                 track_direction = INC_DIRECTION,
                 seg_length = effective_length 4 (length2_segs ! iseg),
                 track_start = (counter mod effective_length 4 (length2_segs ! iseg) = 0),
                 track_end = False\<rparr> \<and>
              details ! (pair_position num_tracks iseg counter + 1) =
                \<lparr>track_node_id = pair_position num_tracks iseg counter + 1,
                 track_direction = DEC_DIRECTION,
                 seg_length = effective_length 4 (length2_segs ! iseg),
                 track_start = (counter mod effective_length 4 (length2_segs ! iseg) = 0),
                 track_end = False\<rparr>) \<and>
           (\<forall>iseg<length length2_segs. \<forall>counter. \<forall>d<2.
              counter + effective_length 4 (length2_segs ! iseg) < num_tracks ! iseg \<and>
              track_start (details ! (pair_position num_tracks iseg counter + d)) \<longrightarrow>
                track_start (details ! (pair_position num_tracks iseg
                   (counter + effective_length 4 (length2_segs ! iseg)) + d)) \<and>
                (\<forall>j. 0 < j \<and> j < effective_length 4 (length2_segs ! iseg) \<longrightarrow>
                   \<not> track_start
                       (details ! (pair_position num_tracks iseg (counter + j) + d)))))"
    by blast
  from nt have n6: "num_tracks = [6]" by (simp add: e get_num_tracks_length2)
  from good obtain details where
    b: "build_unidir_chan_node_details 12 4 NUM_SIDES length2_segs = Some (Inr details)"
    and len: "length details = 12"
    and nth: "\<forall>counter<6.
              details ! pair_position [6] 0 counter =
                \<lparr>track_node_id = pair_position [6] 0 counter,
                 track_direction = INC_DIRECTION, seg_length = 2,
                 track_start = (counter mod 2 = 0), track_end = False\<rparr> \<and>
              details ! (pair_position [6] 0 counter + 1) =
                \<lparr>track_node_id = pair_position [6] 0 counter + 1,
                 track_direction = DEC_DIRECTION, seg_length = 2,
                 track_start = (counter mod 2 = 0), track_end = False\<rparr>"
    and spacing: "\<forall>counter. \<forall>d<2.
              counter + 2 < 6 \<and>
              track_start (details ! (pair_position [6] 0 counter + d)) \<longrightarrow>
                track_start (details ! (pair_position [6] 0 (counter + 2) + d)) \<and>
                (\<forall>j. 0 < j \<and> j < 2 \<longrightarrow>
                   \<not> track_start (details ! (pair_position [6] 0 (counter + j) + d)))"
    by (auto simp: n6 e l)
  have p: "pair_position [6] 0 c = 2 * c" for c by (simp add: pair_position_def)
  from nth [rule_format, of 0] have t0: "track_direction (details ! 0) = INC_DIRECTION"
    "track_start (details ! 0)" "track_direction (details ! 1) = DEC_DIRECTION"
    "track_start (details ! 1)"
    by (simp_all add: p)
  have c0: "(0::nat) + 2 < 6 \<and> track_start (details ! (pair_position [6] 0 0 + 0))"
    using t0(2) by (simp add: p)
  from spacing [THEN spec [where x = "0::nat"], THEN spec [where x = "0::nat"]] c0
  have sp0: "track_start (details ! (pair_position [6] 0 (0 + 2) + 0)) \<and>
             (\<forall>j. 0 < j \<and> j < 2 \<longrightarrow>
                \<not> track_start (details ! (pair_position [6] 0 (0 + j) + 0)))"
    by simp
  from sp0 have s0a: "track_start (details ! 4)" by (simp add: p)
  from sp0 [THEN conjunct2, THEN spec [where x = "1::nat"]]
  have s0b: "\<not> track_start (details ! 2)" by (simp add: p)
  have c1: "(0::nat) + 2 < 6 \<and> track_start (details ! (pair_position [6] 0 0 + 1))"
    using t0(4) by (simp add: p)
  from spacing [THEN spec [where x = "0::nat"], THEN spec [where x = "1::nat"]] c1
  have sp1: "track_start (details ! (pair_position [6] 0 (0 + 2) + 1)) \<and>
             (\<forall>j. 0 < j \<and> j < 2 \<longrightarrow>
                \<not> track_start (details ! (pair_position [6] 0 (0 + j) + 1)))"
    by simp
  from sp1 have s1a: "track_start (details ! 5)" by (simp add: p)
  from sp1 [THEN conjunct2, THEN spec [where x = "1::nat"]]
  have s1b: "\<not> track_start (details ! 3)" by (simp add: p)
  from b len t0 s0a s0b s1a s1b show ?thesis by blast
qed

text \<open>
  C3. The claim: the track list always has as many tracks as the width rounded up to
  even, and the assertion at the end of the track construction never fires. The code
  at the example of its own header comment, length-4 wires in a channel of width 12:
  the allocator is asked for \<open>12 div 2 = 6\<close> pairs in full groups of 4 and returns 8
  (an overshoot of 2 is not more than half the group size, so nothing is undone); 16
  tracks are appended and \<^verbatim>\<open>assert (cur_track == chan_width)\<close> fails.
\<close>

theorem chan_builder_assertion_fires:
  "get_num_tracks_per_seg_type 6 length4_segs True = Some (Inr [8]) \<and>
   build_unidir_chan_node_details 12 4 NUM_SIDES length4_segs = Some (Inl Assertion_failed)"
  by code_simp

section \<open>Properties of the node census\<close>

text \<open>
  For a cell inside the device (coordinates below \<open>device_size\<close>) the first two tests
  of \<^verbatim>\<open>determine_io_grid_pin_side\<close> never hold: only the bottom row and the left
  column get a side, every other cell is fatal.
\<close>

lemma determine_io_grid_pin_side_in_range:
  assumes "get_x grid_coordinator < get_x device_size"
    and "get_y grid_coordinator < get_y device_size"
  shows "determine_io_grid_pin_side device_size grid_coordinator =
           (if get_y grid_coordinator = 0 then Inr TOP
            else if get_x grid_coordinator = 0 then Inr RIGHT
            else Inl Io_grid_in_center)"
  using assms by (auto simp: determine_io_grid_pin_side_def)

text \<open>An IO tile in the bottom row is counted on its top side: one OPIN, one IPIN.\<close>

lemma census_counts_bottom_io:
  "estimate_num_rr_nodes_per_type grid_io_bottom \<lparr>get_x = 3, get_y = 3\<rparr> grid_io_bottom
     [2, 2] length1_segs = Some (Inr [1, 1, 1, 1, 4, 4, 0])"
  by code_simp

text \<open>
  C7. The claim: the pin counting completes for every IO tile next to an outer edge and
  aborts exactly for IO tiles next to none. The code on the \<open>3 \<times> 3\<close> grid with one
  IO tile in the middle of the top row, cell \<open>(1, 2)\<close>, and \<open>device_size = (3, 3)\<close>:
  the side is asked with \<open>device_size\<close>, whose coordinates no cell has, so the tile
  is taken to be in the centre and the census exits. The same happens in the right
  column.
\<close>

theorem census_aborts_on_top_io:
  "determine_io_grid_pin_side \<lparr>get_x = 3, get_y = 3\<rparr> \<lparr>get_x = 1, get_y = 2\<rparr>
     = Inl Io_grid_in_center \<and>
   estimate_num_rr_nodes_per_type grid_io_top \<lparr>get_x = 3, get_y = 3\<rparr> grid_io_top [2, 2]
     length1_segs = Some (Inl Io_grid_in_center) \<and>
   estimate_num_rr_nodes_per_type grid_io_right \<lparr>get_x = 3, get_y = 3\<rparr> grid_io_right [2, 2]
     length1_segs = Some (Inl Io_grid_in_center)"
  by code_simp

text \<open>
  C6. The claim: the CHANX total sums the left, the right and the interior
  representative, each built from the channel width of the X axis. The code on an
  empty \<open>4 \<times> 4\<close> grid with widths \<open>[2, 4]\<close> and one segment type of length 1: the
  interior representative is built from \<^verbatim>\<open>chan_width[1]\<close>, the width of the Y
  axis, and adds 4 start tracks for the one interior position where the width of the
  X axis gives 2; the CHANX total is 10, the total in the words of the claim is 8.
\<close>

theorem census_core_chanx_from_y_width:
  "estimate_num_rr_nodes_per_type grid_empty_4x4 \<lparr>get_x = 4, get_y = 4\<rparr> grid_empty_4x4
     [2, 4] length1_segs = Some (Inr [0, 0, 0, 0, 10, 16, 0]) \<and>
   count_chanx_spec \<lparr>get_x = 4, get_y = 4\<rparr> grid_empty_4x4 2 length1_segs = Some (Inr 8)"
  by code_simp

section \<open>The grid set-up never completes\<close>

lemma grid_copy_column_faults:
  "int ix < L_ny + 2 \<Longrightarrow> grid_copy_column L_ny L_grid ix iy grid = Inl Out_of_range"
proof (induction L_ny L_grid ix iy grid rule: grid_copy_column.induct)
  case (1 L_ny L_grid ix iy grid)
  then show ?case by (subst grid_copy_column.simps) simp
qed

lemma build_grids_faults:
  "0 \<le> L_nx \<Longrightarrow> 0 \<le> L_ny \<Longrightarrow> build_grids L_nx L_ny L_grid grid = Inl Out_of_range"
  by (simp add: build_grids_def grid_copy_columns.simps [of _ _ _ 0] grid_copy_column_faults)

text \<open>
  C10. The claim: for \<open>L_nx \<ge> 0\<close> and \<open>L_ny \<ge> 0\<close> the grid set-up terminates with
  an \<open>(L_nx + 2) \<times> (L_ny + 2)\<close> copy of \<open>L_grid\<close>. The code at \<open>L_nx = L_ny = 0\<close>
  with a \<open>2 \<times> 2\<close> tile array: in column 0 the inner loop tests \<open>ix < L_ny + 2\<close>,
  which \<open>iy\<close> never changes, and runs off the end of the column.
\<close>

theorem grid_setup_out_of_range:
  "build_grids 0 0 grid_empty_2x2 grid_empty_2x2 = Inl Out_of_range"
  by (rule build_grids_faults) simp_all

section \<open>Properties of the multiplexer bitstream builder\<close>

text \<open>
  C4. The claim: the default path is the declared size when the model adds a constant
  input, and for a CMOS model with a constant input and declared size 4 the encoder
  resolves the default path 4. The code: \<^verbatim>\<open>find_mux_default_path_id\<close> returns its
  size argument, but the encoder passes the implemented size, 5, so the default path
  of the encoder is 5, one past the last input (the constant input, index 4) of the
  graph with 5 inputs.
\<close>

theorem encoder_default_path_past_last_input:
  "find_mux_default_path_id const_input_cmos_lib mux_model 4 = 4 \<and>
   find_mux_implementation_num_inputs const_input_cmos_lib mux_model 4 = 5 \<and>
   cmos_datapath_id DEFAULT_PATH_ID const_input_cmos_lib mux_model 4 DEFAULT_PATH_ID = Inr 5"
  by (simp add: find_mux_default_path_id_def find_mux_implementation_num_inputs_def
      cmos_datapath_id_def const_input_cmos_lib_def)

text \<open>
  C5. A query whose path id is not the marker \<open>DEFAULT_PATH_ID\<close> aborts when the path
  id, converted to \<^verbatim>\<open>size_t\<close>, is not below the declared size, in particular when
  it is greater than or equal to the declared size; every query aborts when the graph
  looked up has other than exactly one output; and when the graph has one output and
  the path id is the marker or below the declared size, the builder returns the bits
  decoded for the selected input and the output.
\<close>

theorem build_cmos_mux_bitstream_checks:
  "(path_id \<noteq> DEFAULT_PATH_ID \<and> \<not> size_t_of_int path_id < mux_size \<longrightarrow>
      isl (build_cmos_mux_bitstream DEFAULT_PATH_ID circuit_lib mux_model mux_lib mux_size
             path_id)) \<and>
   (path_id \<noteq> DEFAULT_PATH_ID \<and> int mux_size \<le> path_id \<longrightarrow>
      isl (build_cmos_mux_bitstream DEFAULT_PATH_ID circuit_lib mux_model mux_lib mux_size
             path_id)) \<and>
   (\<forall>g. mux_graph mux_lib mux_model
           (find_mux_implementation_num_inputs circuit_lib mux_model mux_size) = Inr g \<and>
        length (outputs g) \<noteq> 1 \<longrightarrow>
      isl (build_cmos_mux_bitstream DEFAULT_PATH_ID circuit_lib mux_model mux_lib mux_size
             path_id)) \<and>
   (\<forall>g. mux_graph mux_lib mux_model
           (find_mux_implementation_num_inputs circuit_lib mux_model mux_size) = Inr g \<and>
        length (outputs g) = 1 \<and>
        (path_id = DEFAULT_PATH_ID \<or> size_t_of_int path_id < mux_size) \<longrightarrow>
      build_cmos_mux_bitstream DEFAULT_PATH_ID circuit_lib mux_model mux_lib mux_size path_id
        = Inr (decode_memory_bits g
                 (if path_id = DEFAULT_PATH_ID
                  then find_mux_default_path_id circuit_lib mux_model
                         (find_mux_implementation_num_inputs circuit_lib mux_model mux_size)
                  else size_t_of_int path_id)
                 (output_id g (outputs g ! 0))))"
proof (intro conjI allI impI)
  assume "path_id \<noteq> DEFAULT_PATH_ID \<and> \<not> size_t_of_int path_id < mux_size"
  then show "isl (build_cmos_mux_bitstream DEFAULT_PATH_ID circuit_lib mux_model mux_lib
                    mux_size path_id)"
    by (auto simp: build_cmos_mux_bitstream_def cmos_datapath_id_def split: sum.splits)
next
  assume a: "path_id \<noteq> DEFAULT_PATH_ID \<and> int mux_size \<le> path_id"
  then have "\<not> size_t_of_int path_id < mux_size"
    by (auto simp: size_t_of_int_def)
  with a show "isl (build_cmos_mux_bitstream DEFAULT_PATH_ID circuit_lib mux_model mux_lib
                    mux_size path_id)"
    by (auto simp: build_cmos_mux_bitstream_def cmos_datapath_id_def split: sum.splits)
next
  fix g
  assume "mux_graph mux_lib mux_model
            (find_mux_implementation_num_inputs circuit_lib mux_model mux_size) = Inr g \<and>
          length (outputs g) \<noteq> 1"
  then show "isl (build_cmos_mux_bitstream DEFAULT_PATH_ID circuit_lib mux_model mux_lib
                    mux_size path_id)"
    by (auto simp: build_cmos_mux_bitstream_def split: sum.splits)
next
  fix g
  assume "mux_graph mux_lib mux_model
            (find_mux_implementation_num_inputs circuit_lib mux_model mux_size) = Inr g \<and>
          length (outputs g) = 1 \<and>
          (path_id = DEFAULT_PATH_ID \<or> size_t_of_int path_id < mux_size)"
  then show "build_cmos_mux_bitstream DEFAULT_PATH_ID circuit_lib mux_model mux_lib mux_size
               path_id
        = Inr (decode_memory_bits g
                 (if path_id = DEFAULT_PATH_ID
                  then find_mux_default_path_id circuit_lib mux_model
                         (find_mux_implementation_num_inputs circuit_lib mux_model mux_size)
                  else size_t_of_int path_id)
                 (output_id g (outputs g ! 0)))"
    by (auto simp: build_cmos_mux_bitstream_def cmos_datapath_id_def)
qed

theorem build_cmos_mux_bitstream_checks_witness:
  "isl (build_cmos_mux_bitstream (- 1) const_input_cmos_lib 0 example_mux_lib 4 4) \<and>
   isl (build_cmos_mux_bitstream (- 1) const_input_cmos_lib 0 example_mux_lib 4 (- 2)) \<and>
   build_cmos_mux_bitstream (- 1) const_input_cmos_lib 0 example_mux_lib 4 2
     = Inr [True, True]"
proof -
  have g: "mux_graph example_mux_lib 0
             (find_mux_implementation_num_inputs const_input_cmos_lib 0 4) = Inr one_output_graph"
    by (simp add: mux_graph_def example_mux_lib_def find_mux_implementation_num_inputs_def
        const_input_cmos_lib_def)
  have o: "length (outputs one_output_graph) = 1"
    "decode_memory_bits one_output_graph 2 (output_id one_output_graph
       (outputs one_output_graph ! 0)) = [True, True]"
    by (simp_all add: one_output_graph_def numeral_2_eq_2)
  have s: "size_t_of_int 2 = 2" "\<not> size_t_of_int (- 2) < 4" "size_t_of_int 4 = 4"
    by (simp_all add: size_t_of_int_def)
  from build_cmos_mux_bitstream_checks
         [of 4 "- 1" 4 const_input_cmos_lib 0 example_mux_lib]
  have 1: "isl (build_cmos_mux_bitstream (- 1) const_input_cmos_lib 0 example_mux_lib 4 4)"
    by (simp add: s)
  from build_cmos_mux_bitstream_checks
         [of "- 2" "- 1" 4 const_input_cmos_lib 0 example_mux_lib]
  have 2: "isl (build_cmos_mux_bitstream (- 1) const_input_cmos_lib 0 example_mux_lib 4 (- 2))"
    by (simp add: s)
  from build_cmos_mux_bitstream_checks
         [of 2 "- 1" 4 const_input_cmos_lib 0 example_mux_lib] g
  have 3: "build_cmos_mux_bitstream (- 1) const_input_cmos_lib 0 example_mux_lib 4 2
            = Inr [True, True]"
    by (simp add: s o)
  from 1 2 3 show ?thesis by simp
qed

end
